theory Spec2Isabelle
  imports Main
begin

section \<open>Credential store (src/auth.ts)\<close>

text \<open>
  The browser's \<open>localStorage\<close> holds two items for this SDK, under the fixed names
  \<open>scms_auth\<close> and \<open>scms_mode\<close>. An item is a JSON text; the model keeps what
  \<open>JSON.parse\<close> makes of it: a parsed object, or \<open>Unparsable\<close> when parsing throws.
  \<open>getItem\<close> answering \<open>null\<close> (or the empty text, which \<open>!stored\<close> treats alike) is
  \<open>None\<close>. Times are epoch milliseconds, as \<open>Date.now()\<close> gives them.
  \<open>setItem\<close> may throw \<open>QuotaExceededError\<close>; \<open>quotaExceeded\<close> says whether it does.
\<close>

definition STORAGE_KEY :: string where
  "STORAGE_KEY = ''scms_auth''"

definition MODE_STORAGE_KEY :: string where
  "MODE_STORAGE_KEY = ''scms_mode''"

definition POPUP_CHECK_INTERVAL :: nat where
  "POPUP_CHECK_INTERVAL = 500"

definition KEY_EXPIRY_MS :: int where
  "KEY_EXPIRY_MS = 60 * 60 * 1000"

datatype EditorMode = author | viewer

record StoredAuth =
  auth_key :: string
  auth_appId :: string
  expiresAt :: int

record StoredMode =
  mode_appId :: string
  mode_mode :: EditorMode

datatype 'a item = Json 'a | Unparsable

record localStorage =
  scms_auth :: "StoredAuth item option"
  scms_mode :: "StoredMode item option"
  quotaExceeded :: bool

record AuthConfig =
  cfg_appId :: string
  cfg_appUrl :: string

datatype exn = QuotaExceededError

definition clearStoredKey :: "localStorage \<Rightarrow> localStorage" where
  "clearStoredKey ls = ls\<lparr>scms_auth := None\<rparr>"

text \<open>
  \<open>getStoredKey\<close> reads the clock once (\<open>now\<close>) and returns the key together with the
  storage it leaves behind. Every \<open>return null\<close> of the source is a \<open>None\<close> branch; the
  \<open>catch\<close> is the \<open>Unparsable\<close> branch.
\<close>

definition getStoredKey :: "AuthConfig \<Rightarrow> int \<Rightarrow> localStorage \<Rightarrow> string option \<times> localStorage" where
  "getStoredKey cfg now ls =
     (case scms_auth ls of
        None \<Rightarrow> (None, ls)
      | Some Unparsable \<Rightarrow> (None, ls)
      | Some (Json a) \<Rightarrow>
          if auth_appId a \<noteq> cfg_appId cfg then (None, ls)
          else if now > expiresAt a then (None, clearStoredKey ls)
          else (Some (auth_key a), ls))"

definition storeKey :: "AuthConfig \<Rightarrow> int \<Rightarrow> string \<Rightarrow> localStorage \<Rightarrow> exn + localStorage" where
  "storeKey cfg now k ls =
     (if quotaExceeded ls then Inl QuotaExceededError
      else Inr (ls\<lparr>scms_auth :=
             Some (Json \<lparr>auth_key = k, auth_appId = cfg_appId cfg, expiresAt = now + KEY_EXPIRY_MS\<rparr>)\<rparr>))"

text \<open>
  \<open>refreshKeyExpiry\<close> reads the clock twice: in \<open>getStoredKey\<close> (\<open>now_read\<close>) and in
  \<open>storeKey\<close> (\<open>now_write\<close>). \<open>if (key)\<close> is false for the empty string too.
\<close>

definition refreshKeyExpiry :: "AuthConfig \<Rightarrow> int \<Rightarrow> int \<Rightarrow> localStorage \<Rightarrow> exn + localStorage" where
  "refreshKeyExpiry cfg now_read now_write ls =
     (case getStoredKey cfg now_read ls of
        (None, ls') \<Rightarrow> Inr ls'
      | (Some k, ls') \<Rightarrow> if k = [] then Inr ls' else storeKey cfg now_write k ls')"

definition getStoredMode :: "AuthConfig \<Rightarrow> localStorage \<Rightarrow> EditorMode option" where
  "getStoredMode cfg ls =
     (case scms_mode ls of
        None \<Rightarrow> None
      | Some Unparsable \<Rightarrow> None
      | Some (Json d) \<Rightarrow> if mode_appId d \<noteq> cfg_appId cfg then None else Some (mode_mode d))"

definition storeMode :: "AuthConfig \<Rightarrow> EditorMode \<Rightarrow> localStorage \<Rightarrow> exn + localStorage" where
  "storeMode cfg m ls =
     (if quotaExceeded ls then Inl QuotaExceededError
      else Inr (ls\<lparr>scms_mode := Some (Json \<lparr>mode_appId = cfg_appId cfg, mode_mode = m\<rparr>)\<rparr>))"


section \<open>Editing session (the lazy module's \<open>EditorController\<close>)\<close>

record ViewerConfig =
  apiUrl :: string
  appUrl :: string
  appId :: string
  mockAuth :: bool

definition authConfig :: "ViewerConfig \<Rightarrow> AuthConfig" where
  "authConfig c = \<lparr>cfg_appId = appId c, cfg_appUrl = appUrl c\<rparr>"

text \<open>
  Of a DOM element the controller reads and writes its \<open>innerHTML\<close>, the two CSS classes
  \<open>streamlined-editable\<close> and \<open>streamlined-editing\<close>, the \<open>contenteditable\<close> attribute and
  the two \<open>dataset\<close> flags that record an installed listener.
\<close>

record HTMLElement =
  innerHTML :: string
  streamlined_editable :: bool
  streamlined_editing :: bool
  contenteditable :: "string option"
  scmsClickHandler :: bool
  scmsInputHandler :: bool

record Toolbar =
  tb_mode :: EditorMode
  activeElement :: "string option"
  hasChanges :: bool
  tb_saving :: bool

text \<open>
  The controller's fields. \<open>editableElements\<close> is a JavaScript \<open>Map\<close>, kept as an
  association list in insertion order (\<open>forEach\<close> and \<open>entries\<close> iterate in that order);
  \<open>originalContent\<close> is only read by key, so it is a partial function. \<open>storage\<close> is the
  \<open>localStorage\<close> behind \<open>this.auth\<close>, \<open>alerts\<close> the texts passed to \<open>alert\<close>,
  \<open>signInLinks\<close> the number of \<open>scms-sign-in-link\<close> elements appended to the body, and
  \<open>domSignInTrigger\<close> whether the page has a \<open>[data-scms-signin]\<close> element.
  The label and the listeners of that trigger, focus, injected styles and body padding are
  presentation and are left out.
\<close>

record EditorController =
  storage :: localStorage
  apiKey :: "string option"
  currentMode :: EditorMode
  editableElements :: "(string \<times> HTMLElement) list"
  originalContent :: "string \<rightharpoonup> string"
  editingElementId :: "string option"
  toolbar :: "Toolbar option"
  saving :: bool
  documentClickHandler :: bool
  customSignInTrigger :: bool
  domSignInTrigger :: bool
  signInLinks :: nat
  alerts :: "string list"

text \<open>\<open>Map.prototype.set\<close>: an existing key keeps its position, a new key goes last.\<close>

primrec Map_set :: "'k \<Rightarrow> 'v \<Rightarrow> ('k \<times> 'v) list \<Rightarrow> ('k \<times> 'v) list" where
  "Map_set k v [] = [(k, v)]"
| "Map_set k v (p # ps) = (if fst p = k then (k, v) # ps else p # Map_set k v ps)"

text \<open>
  A \<open>string | null\<close> tested by \<open>if (!x)\<close> is falsy when it is \<open>null\<close> and when it is the
  empty string; each such test below has both branches.
\<close>

text \<open>
  Elements are objects reached through the registry; mutating the element registered under
  \<open>eid\<close> rewrites that entry, and does nothing when \<open>get(eid)\<close> is \<open>undefined\<close>.
\<close>

definition modifyElement :: "string \<Rightarrow> (HTMLElement \<Rightarrow> HTMLElement) \<Rightarrow> EditorController \<Rightarrow> EditorController" where
  "modifyElement eid f st =
     st\<lparr>editableElements := map (\<lambda>p. if fst p = eid then (fst p, f (snd p)) else p) (editableElements st)\<rparr>"

definition forEachElement :: "(HTMLElement \<Rightarrow> HTMLElement) \<Rightarrow> EditorController \<Rightarrow> EditorController" where
  "forEachElement f st =
     st\<lparr>editableElements := map (\<lambda>p. (fst p, f (snd p))) (editableElements st)\<rparr>"

definition scanEditableElements :: "(string \<times> HTMLElement) list \<Rightarrow> EditorController \<Rightarrow> EditorController" where
  "scanEditableElements nodes st =
     st\<lparr>editableElements :=
          fold (\<lambda>p m. if fst p = [] then m else Map_set (fst p) (snd p) m) nodes (editableElements st)\<rparr>"

definition stopEditing :: "EditorController \<Rightarrow> EditorController" where
  "stopEditing st =
     (case editingElementId st of
        None \<Rightarrow> st
      | Some eid \<Rightarrow>
          if eid = [] then st
          else (modifyElement eid
                  (\<lambda>e. e\<lparr>streamlined_editing := False, contenteditable := Some ''false''\<rparr>) st)
               \<lparr>editingElementId := None,
                toolbar := map_option (\<lambda>t. t\<lparr>activeElement := None\<rparr>) (toolbar st)\<rparr>)"

definition startEditing :: "string \<Rightarrow> EditorController \<Rightarrow> EditorController" where
  "startEditing elementId st =
     (case map_of (editableElements st) elementId of
        None \<Rightarrow> st
      | Some element \<Rightarrow>
          let st1 = (case editingElementId st of
                       None \<Rightarrow> st
                     | Some prev \<Rightarrow>
                         if prev = [] then st
                         else modifyElement prev
                                (\<lambda>e. e\<lparr>streamlined_editing := False, contenteditable := Some ''false''\<rparr>) st);
              st2 = (if originalContent st1 elementId = None
                     then st1\<lparr>originalContent := (originalContent st1)(elementId \<mapsto> innerHTML element)\<rparr>
                     else st1);
              st3 = modifyElement elementId
                      (\<lambda>e. e\<lparr>scmsInputHandler := True, streamlined_editing := True,
                              contenteditable := Some ''true''\<rparr>) st2
          in st3\<lparr>editingElementId := Some elementId,
                 toolbar := map_option (\<lambda>t. t\<lparr>activeElement := Some elementId\<rparr>) (toolbar st3)\<rparr>)"

text \<open>
  \<open>getDirtyElements\<close> builds a fresh \<open>Map\<close> while iterating over the registry: an entry
  is added when a snapshot is defined and differs from the live content (\<open>!==\<close> on strings).
\<close>

definition getDirtyElements :: "EditorController \<Rightarrow> (string \<times> string) list" where
  "getDirtyElements st =
     fold (\<lambda>p dirty.
             case originalContent st (fst p) of
               None \<Rightarrow> dirty
             | Some original \<Rightarrow>
                 if innerHTML (snd p) \<noteq> original then Map_set (fst p) (innerHTML (snd p)) dirty
                 else dirty)
          (editableElements st) []"

definition updateToolbarHasChanges :: "EditorController \<Rightarrow> EditorController" where
  "updateToolbarHasChanges st =
     st\<lparr>toolbar := map_option (\<lambda>t. t\<lparr>hasChanges := (getDirtyElements st \<noteq> [])\<rparr>) (toolbar st)\<rparr>"

definition showToolbar :: "EditorController \<Rightarrow> EditorController" where
  "showToolbar st =
     (case toolbar st of
        Some t \<Rightarrow> st\<lparr>toolbar := Some (t\<lparr>tb_mode := currentMode st, activeElement := editingElementId st\<rparr>)\<rparr>
      | None \<Rightarrow> st\<lparr>toolbar := Some \<lparr>tb_mode = currentMode st, activeElement = editingElementId st,
                                     hasChanges = False, tb_saving = False\<rparr>\<rparr>)"

definition removeToolbar :: "EditorController \<Rightarrow> EditorController" where
  "removeToolbar st = st\<lparr>toolbar := None\<rparr>"

definition showSignInLink :: "EditorController \<Rightarrow> EditorController" where
  "showSignInLink st =
     (let st1 = removeToolbar st
      in if domSignInTrigger st1 then st1\<lparr>customSignInTrigger := True\<rparr>
         else st1\<lparr>signInLinks := Suc (signInLinks st1)\<rparr>)"

definition enableAuthorMode :: "EditorController \<Rightarrow> EditorController" where
  "enableAuthorMode st =
     showToolbar
       ((forEachElement (\<lambda>e. e\<lparr>streamlined_editable := True, scmsClickHandler := True\<rparr>) st)
          \<lparr>documentClickHandler := True\<rparr>)"

definition enableViewerMode :: "EditorController \<Rightarrow> EditorController" where
  "enableViewerMode st =
     showToolbar
       (stopEditing
          ((forEachElement
              (\<lambda>e. e\<lparr>streamlined_editable := False, streamlined_editing := False,
                      contenteditable := None\<rparr>) st)
             \<lparr>documentClickHandler := False\<rparr>))"

text \<open>
  \<open>setMode\<close> writes the preference before it switches; when that write throws, the
  exception leaves the method and the rest of it does not run.
\<close>

definition setMode :: "ViewerConfig \<Rightarrow> EditorMode \<Rightarrow> EditorController \<Rightarrow> EditorController" where
  "setMode cfg m st =
     (let st1 = st\<lparr>currentMode := m\<rparr>
      in case storeMode (authConfig cfg) m (storage st1) of
           Inl e \<Rightarrow> st1
         | Inr ls \<Rightarrow>
             let st2 = st1\<lparr>storage := ls\<rparr>;
                 st3 = (if m = author then enableAuthorMode st2 else enableViewerMode st2)
             in st3\<lparr>toolbar := map_option (\<lambda>t. t\<lparr>tb_mode := m\<rparr>) (toolbar st3)\<rparr>)"

definition signOut :: "EditorController \<Rightarrow> EditorController" where
  "signOut st =
     (let st1 = st\<lparr>storage := clearStoredKey (storage st), apiKey := None\<rparr>;
          st2 = forEachElement
                  (\<lambda>e. e\<lparr>streamlined_editable := False, streamlined_editing := False,
                          contenteditable := None\<rparr>) st1;
          st3 = stopEditing st2;
          st4 = removeToolbar st3
      in if \<not> customSignInTrigger st4 then showSignInLink st4 else st4)"

definition handleReset :: "EditorController \<Rightarrow> EditorController" where
  "handleReset st =
     (case editingElementId st of
        None \<Rightarrow> st
      | Some elementId \<Rightarrow>
          if elementId = [] then st
          else (case (map_of (editableElements st) elementId, originalContent st elementId) of
                  (Some element, Some original) \<Rightarrow>
                    updateToolbarHasChanges (modifyElement elementId (\<lambda>e. e\<lparr>innerHTML := original\<rparr>) st)
                | _ \<Rightarrow> st))"

text \<open>
  The user typing into an element: the browser replaces its content and fires \<open>input\<close>,
  whose listener (installed by \<open>startEditing\<close>) recomputes the toolbar's flag.
\<close>

definition inputEvent :: "string \<Rightarrow> string \<Rightarrow> EditorController \<Rightarrow> EditorController" where
  "inputEvent elementId content st =
     (case map_of (editableElements st) elementId of
        None \<Rightarrow> st
      | Some element \<Rightarrow>
          let st1 = modifyElement elementId (\<lambda>e. e\<lparr>innerHTML := content\<rparr>) st
          in if scmsInputHandler element then updateToolbarHasChanges st1 else st1)"


section \<open>Batched save (\<open>EditorController.handleSave\<close>)\<close>

text \<open>
  One \<open>PUT\<close> per dirty entry. What \<open>fetch\<close> does with a request is the environment's:
  it rejects with an error carrying a message (\<open>NetworkError\<close>), or it resolves with a
  response that has a status, a status text and a body; \<open>response.json()\<close> rejects with a
  message when the body does not parse (the third argument, \<open>None\<close> when it parses).
\<close>

record Request =
  req_url :: string
  req_method :: string
  req_headers :: "(string \<times> string) list"
  req_content :: string

datatype FetchResult = NetworkError string | Response nat string "string option"

datatype Settled = Fulfilled | Rejected string

datatype SaveOutcome = Skipped | Completed "string list" "string list" | Threw string

text \<open>
  The decimal digits of a number, as a template literal prints it; \<open>digit\<close> is only
  applied below ten.
\<close>

definition digit :: "nat \<Rightarrow> char" where
  "digit d = ''0123456789'' ! d"

fun show_nat :: "nat \<Rightarrow> string" where
  "show_nat n = (if n < 10 then [digit n] else show_nat (n div 10) @ [digit (n mod 10)])"

declare show_nat.simps [simp del]

fun join :: "string \<Rightarrow> string list \<Rightarrow> string" where
  "join sep [] = []"
| "join sep [x] = x"
| "join sep (x # y # ys) = x @ sep @ join sep (y # ys)"

definition response_ok :: "nat \<Rightarrow> bool" where
  "response_ok status = (200 \<le> status \<and> status \<le> 299)"

definition saveHeaders :: "EditorController \<Rightarrow> (string \<times> string) list" where
  "saveHeaders st =
     (''Content-Type'', ''application/json'') #
     (case apiKey st of
        None \<Rightarrow> []
      | Some k \<Rightarrow> if k = [] then [] else [(''Authorization'', ''Bearer '' @ k)])"

definition saveRequest :: "ViewerConfig \<Rightarrow> EditorController \<Rightarrow> string \<times> string \<Rightarrow> Request" where
  "saveRequest cfg st entry =
     \<lparr>req_url = apiUrl cfg @ ''/apps/'' @ appId cfg @ ''/content/'' @ fst entry,
      req_method = ''PUT'',
      req_headers = saveHeaders st,
      req_content = snd entry\<rparr>"

text \<open>
  The guard and the start of a save: nothing happens when the dirty set is empty or a save
  is in flight; otherwise \<open>saving\<close> is raised and the requests go out, in the dirty set's
  order. The result pairs each dirty entry with its request.
\<close>

definition handleSave_begin ::
    "ViewerConfig \<Rightarrow> EditorController \<Rightarrow> EditorController \<times> ((string \<times> string) \<times> Request) list option" where
  "handleSave_begin cfg st =
     (let dirtyElements = getDirtyElements st
      in if dirtyElements = [] \<or> saving st then (st, None)
         else (st\<lparr>saving := True, toolbar := map_option (\<lambda>t. t\<lparr>tb_saving := True\<rparr>) (toolbar st)\<rparr>,
               Some (map (\<lambda>entry. (entry, saveRequest cfg st entry)) dirtyElements)))"

text \<open>
  One save promise, given what \<open>fetch\<close> answered: it rejects with the \<open>fetch\<close> error,
  with \<open>"<id>: <status> <statusText>"\<close> for a response that is not ok, or with the parse
  error of \<open>response.json()\<close>; otherwise it fulfils, after setting the snapshot
  (\<open>settlePromise\<close> is the effect of its settling on the controller).
\<close>

definition savePromise :: "string \<times> string \<Rightarrow> FetchResult \<Rightarrow> Settled" where
  "savePromise entry res =
     (case res of
        NetworkError msg \<Rightarrow> Rejected msg
      | Response status statusText jsonError \<Rightarrow>
          if \<not> response_ok status
          then Rejected (fst entry @ '': '' @ show_nat status @ '' '' @ statusText)
          else (case jsonError of Some msg \<Rightarrow> Rejected msg | None \<Rightarrow> Fulfilled))"

definition settlePromise :: "string \<times> string \<Rightarrow> FetchResult \<Rightarrow> EditorController \<Rightarrow> EditorController" where
  "settlePromise entry res st =
     (if savePromise entry res = Fulfilled
      then st\<lparr>originalContent := (originalContent st)(fst entry \<mapsto> snd entry)\<rparr>
      else st)"

text \<open>
  The ids pushed to \<open>saved\<close>, here in request order; the source pushes them as the
  promises fulfil, and only logs their number.
\<close>

definition savedIds :: "((string \<times> string) \<times> FetchResult) list \<Rightarrow> string list" where
  "savedIds settled =
     map (\<lambda>p. fst (fst p)) (filter (\<lambda>p. savePromise (fst p) (snd p) = Fulfilled) settled)"

text \<open>\<open>errors.push(result.reason?.message || "Unknown error")\<close> for each rejected result.\<close>

definition collectErrors :: "((string \<times> string) \<times> FetchResult) list \<Rightarrow> string list" where
  "collectErrors settled =
     concat (map (\<lambda>p. case savePromise (fst p) (snd p) of
                         Fulfilled \<Rightarrow> []
                       | Rejected msg \<Rightarrow> [if msg = [] then ''Unknown error'' else msg])
                 settled)"

definition exn_message :: "exn \<Rightarrow> string" where
  "exn_message e = (case e of QuotaExceededError \<Rightarrow> ''The quota has been exceeded.'')"

definition releaseSaving :: "EditorController \<Rightarrow> EditorController" where
  "releaseSaving st =
     st\<lparr>saving := False, toolbar := map_option (\<lambda>t. t\<lparr>tb_saving := False\<rparr>) (toolbar st)\<rparr>"

text \<open>
  The rest of the \<open>try\<close> once every promise has settled (\<open>Promise.allSettled\<close>), then
  \<open>catch\<close> and \<open>finally\<close>. \<open>settled\<close> lists each dirty entry with the answer to its
  request, in request order. The only statement of the \<open>try\<close> that can throw is the
  storage write inside \<open>refreshKeyExpiry\<close>.
\<close>

definition handleSave_finish ::
    "ViewerConfig \<Rightarrow> int \<Rightarrow> int \<Rightarrow> ((string \<times> string) \<times> FetchResult) list \<Rightarrow> EditorController
       \<Rightarrow> EditorController \<times> SaveOutcome" where
  "handleSave_finish cfg now_read now_write settled st =
     (let errors = collectErrors settled
      in case refreshKeyExpiry (authConfig cfg) now_read now_write (storage st) of
           Inl e \<Rightarrow>
             (releaseSaving
                (st\<lparr>alerts := alerts st @
                       [''Failed to save: '' @ exn_message e @ [CHR 0x0A, CHR 0x0A] @
                        ''Check console for details.'']\<rparr>),
              Threw (exn_message e))
         | Inr ls \<Rightarrow>
             let st2 = st\<lparr>storage := ls\<rparr>;
                 st3 = (if errors \<noteq> []
                        then st2\<lparr>alerts := alerts st2 @
                                   [''Failed to save some elements:'' @ [CHR 0x0A] @ join [CHR 0x0A] errors]\<rparr>
                        else stopEditing st2)
             in (releaseSaving (updateToolbarHasChanges st3), Completed (savedIds settled) errors))"

text \<open>
  Every promise settles, each running its continuation, and then the save finishes. The
  snapshots do not depend on the order in which the promises settle, since the ids of the
  dirty set are distinct.
\<close>

definition handleSave_settle ::
    "ViewerConfig \<Rightarrow> int \<Rightarrow> int \<Rightarrow> ((string \<times> string) \<times> FetchResult) list \<Rightarrow> EditorController
       \<Rightarrow> EditorController \<times> SaveOutcome" where
  "handleSave_settle cfg now_read now_write settled st =
     handleSave_finish cfg now_read now_write settled
       (fold (\<lambda>p. settlePromise (fst p) (snd p)) settled st)"

text \<open>
  The whole of \<open>handleSave\<close> when nothing else runs between the requests and their
  answers; \<open>fetch\<close> gives the environment's answer to each request.
\<close>

definition handleSave ::
    "ViewerConfig \<Rightarrow> int \<Rightarrow> int \<Rightarrow> (Request \<Rightarrow> FetchResult) \<Rightarrow> EditorController
       \<Rightarrow> EditorController \<times> SaveOutcome" where
  "handleSave cfg now_read now_write fetch st =
     (case handleSave_begin cfg st of
        (st', None) \<Rightarrow> (st', Skipped)
      | (st', Some pending) \<Rightarrow>
          handleSave_settle cfg now_read now_write (map (\<lambda>p. (fst p, fetch (snd p))) pending) st')"

text \<open>
  The click listener that \<open>enableAuthorMode\<close> installs on each element starts an edit
  only in author mode. \<open>handleDocumentClick\<close>, while it is registered, ends the edit on a
  click outside every registered element and outside the toolbar (\<open>outside\<close>).
\<close>

definition elementClick :: "string \<Rightarrow> EditorController \<Rightarrow> EditorController" where
  "elementClick elementId st =
     (case map_of (editableElements st) elementId of
        None \<Rightarrow> st
      | Some element \<Rightarrow>
          if scmsClickHandler element \<and> currentMode st = author then startEditing elementId st
          else st)"

definition handleDocumentClick :: "bool \<Rightarrow> EditorController \<Rightarrow> EditorController" where
  "handleDocumentClick outside st =
     (if documentClickHandler st \<and> outside then stopEditing st else st)"

text \<open>
  The controller's operations as one type, to speak of whatever runs while a save is in
  flight; \<open>HandleSave\<close> is a further press of the save button, \<open>SettlePromise\<close> the
  settling of one of the save's promises.
\<close>

datatype Operation =
    StartEditing string
  | StopEditing
  | SetMode EditorMode
  | SignOut
  | HandleReset
  | InputEvent string string
  | ElementClick string
  | DocumentClick bool
  | HandleSave
  | SettlePromise "string \<times> string" FetchResult

definition perform :: "ViewerConfig \<Rightarrow> Operation \<Rightarrow> EditorController \<Rightarrow> EditorController" where
  "perform cfg op st =
     (case op of
        StartEditing elementId \<Rightarrow> startEditing elementId st
      | StopEditing \<Rightarrow> stopEditing st
      | SetMode m \<Rightarrow> setMode cfg m st
      | SignOut \<Rightarrow> signOut st
      | HandleReset \<Rightarrow> handleReset st
      | InputEvent elementId content \<Rightarrow> inputEvent elementId content st
      | ElementClick elementId \<Rightarrow> elementClick elementId st
      | DocumentClick outside \<Rightarrow> handleDocumentClick outside st
      | HandleSave \<Rightarrow> fst (handleSave_begin cfg st)
      | SettlePromise entry res \<Rightarrow> settlePromise entry res st)"


subsection \<open>Session start (\<open>init\<close>, \<open>setupAuthUI\<close>)\<close>

definition newController :: "localStorage \<Rightarrow> bool \<Rightarrow> EditorController" where
  "newController ls trigger =
     \<lparr>storage = ls, apiKey = None, currentMode = viewer, editableElements = [],
      originalContent = Map.empty, editingElementId = None, toolbar = None, saving = False,
      documentClickHandler = False, customSignInTrigger = False, domSignInTrigger = trigger,
      signInLinks = 0, alerts = []\<rparr>"

definition setupAuthUI :: "ViewerConfig \<Rightarrow> int \<Rightarrow> EditorController \<Rightarrow> EditorController" where
  "setupAuthUI cfg now st =
     (case getStoredKey (authConfig cfg) now (storage st) of
        (storedKey, ls) \<Rightarrow>
          let st0 = st\<lparr>storage := ls\<rparr>
          in if storedKey = None \<or> storedKey = Some [] then showSignInLink st0
             else let st1 = st0\<lparr>apiKey := storedKey,
                                customSignInTrigger := (domSignInTrigger st0 \<or> customSignInTrigger st0)\<rparr>
                  in setMode cfg
                       (if getStoredMode (authConfig cfg) (storage st1) = Some author then author else viewer)
                       st1)"

definition init :: "ViewerConfig \<Rightarrow> int \<Rightarrow> (string \<times> HTMLElement) list \<Rightarrow> EditorController \<Rightarrow> EditorController" where
  "init cfg now nodes st =
     (let st1 = scanEditableElements nodes st
      in if mockAuth cfg then setMode cfg author (st1\<lparr>apiKey := Some ''mock-api-key''\<rparr>)
         else setupAuthUI cfg now st1)"


section \<open>Cross-window handshakes (\<open>Auth.openLoginPopup\<close>, \<open>Auth.openMediaManager\<close>)\<close>

text \<open>
  A handshake is the promise the method returns together with what its closures hold: the
  \<open>checkClosed\<close> interval, the penpal connection, and, for the media manager, the
  \<open>setTimeout(cleanup, 0)\<close> callbacks not yet run. After the method has returned, code of
  the source runs only in these callbacks:
  \<^item> the interval's tick, every \<open>POPUP_CHECK_INTERVAL\<close> milliseconds, which reads
    \<open>popup.closed\<close>;
  \<^item> a method of the connection, when the popup calls it; penpal's \<open>WindowMessenger\<close>
    hands a message on only if its origin is one of \<open>allowedOrigins\<close>, and only until
    the connection is destroyed;
  \<^item> a queued \<open>cleanup\<close> timer.
  \<open>ConnectTimeout\<close> is the moment the \<open>timeout\<close> given to \<open>connect\<close> has elapsed.
  penpal reports it through \<open>connection.promise\<close>, which the source never reads, so no
  callback of the source runs then. What penpal itself does to a connection that was not
  established in time is not followed: \<open>connection\<close> only records the source's own
  \<open>connection.destroy()\<close>, so the model allows at least the deliveries penpal allows.
  \<open>resolve\<close> settles the promise once; later calls are ignored. \<open>received\<close> logs the
  calls handed to a method.
\<close>

record MediaFile =
  fileId :: string
  filename :: string
  extension :: string
  contentType :: string
  size :: nat
  uploadedAt :: string
  uploadedBy :: "string option"
  publicUrl :: string

datatype 'r Promise = Pending | Resolved 'r | Cancelled | Failed

datatype Remote = ReceiveAuthResult string | ReceiveMediaSelection MediaFile | ReceiveMediaCancel

datatype Event = PollTick bool | RemoteCall int string Remote | TimerFired | ConnectTimeout

record 'r Handshake =
  promise :: "'r Promise"
  checkClosed :: bool
  connection :: bool
  allowedOrigins :: "string list"
  timeout :: nat
  cleanupTimers :: nat
  received :: "(string \<times> Remote) list"

definition LOGIN_TIMEOUT :: nat where
  "LOGIN_TIMEOUT = 300000"

definition MEDIA_TIMEOUT :: nat where
  "MEDIA_TIMEOUT = 600000"

definition resolve :: "'r Promise \<Rightarrow> 'r Handshake \<Rightarrow> 'r Handshake" where
  "resolve v h = (if promise h = Pending then h\<lparr>promise := v\<rparr> else h)"

definition cleanup :: "'r Handshake \<Rightarrow> 'r Handshake" where
  "cleanup h = h\<lparr>checkClosed := False, connection := False\<rparr>"

text \<open>
  \<open>window.open\<close> answers \<open>null\<close> when the popup is blocked (\<open>opened = False\<close>).
  \<open>originOf\<close> stands for \<open>new URL(_).origin\<close>, \<open>None\<close> when the constructor throws; the
  throw happens inside the promise's executor, so the promise is rejected.
\<close>

definition openPopup :: "(string \<Rightarrow> string option) \<Rightarrow> AuthConfig \<Rightarrow> nat \<Rightarrow> bool \<Rightarrow> 'r Handshake" where
  "openPopup originOf cfg tmo opened =
     (if \<not> opened
      then \<lparr>promise = Cancelled, checkClosed = False, connection = False, allowedOrigins = [],
            timeout = tmo, cleanupTimers = 0, received = []\<rparr>
      else case originOf (cfg_appUrl cfg) of
             None \<Rightarrow> \<lparr>promise = Failed, checkClosed = False, connection = False, allowedOrigins = [],
                       timeout = tmo, cleanupTimers = 0, received = []\<rparr>
           | Some origin \<Rightarrow> \<lparr>promise = Pending, checkClosed = True, connection = True,
                              allowedOrigins = [origin], timeout = tmo, cleanupTimers = 0,
                              received = []\<rparr>)"

definition openLoginPopup :: "(string \<Rightarrow> string option) \<Rightarrow> AuthConfig \<Rightarrow> bool \<Rightarrow> string Handshake" where
  "openLoginPopup originOf cfg opened = openPopup originOf cfg LOGIN_TIMEOUT opened"

definition openMediaManager :: "(string \<Rightarrow> string option) \<Rightarrow> AuthConfig \<Rightarrow> bool \<Rightarrow> MediaFile Handshake" where
  "openMediaManager originOf cfg opened = openPopup originOf cfg MEDIA_TIMEOUT opened"

definition pollTick :: "bool \<Rightarrow> 'r Handshake \<Rightarrow> 'r Handshake" where
  "pollTick closed h = (if checkClosed h \<and> closed then resolve Cancelled (cleanup h) else h)"

definition delivers :: "'r Handshake \<Rightarrow> string \<Rightarrow> bool" where
  "delivers h origin = (connection h \<and> origin \<in> set (allowedOrigins h))"

text \<open>
  The login handshake shares \<open>localStorage\<close> with the rest of the page:
  \<open>receiveAuthResult\<close> stores the key, cleans up and resolves. When the store throws,
  the method ends there.
\<close>

definition loginStep ::
    "AuthConfig \<Rightarrow> Event \<Rightarrow> string Handshake \<times> localStorage \<Rightarrow> string Handshake \<times> localStorage" where
  "loginStep cfg ev s =
     (case s of (h, ls) \<Rightarrow>
        (case ev of
           PollTick closed \<Rightarrow> (pollTick closed h, ls)
         | RemoteCall now origin call \<Rightarrow>
             if \<not> delivers h origin then (h, ls)
             else (case call of
                     ReceiveAuthResult k \<Rightarrow>
                       let h1 = h\<lparr>received := received h @ [(origin, call)]\<rparr>
                       in (case storeKey cfg now k ls of
                             Inl e \<Rightarrow> (h1, ls)
                           | Inr ls' \<Rightarrow> (resolve (Resolved k) (cleanup h1), ls'))
                   | ReceiveMediaSelection f \<Rightarrow> (h, ls)
                   | ReceiveMediaCancel \<Rightarrow> (h, ls))
         | TimerFired \<Rightarrow> (h, ls)
         | ConnectTimeout \<Rightarrow> (h, ls)))"

definition mediaStep :: "Event \<Rightarrow> MediaFile Handshake \<Rightarrow> MediaFile Handshake" where
  "mediaStep ev h =
     (case ev of
        PollTick closed \<Rightarrow> pollTick closed h
      | RemoteCall now origin call \<Rightarrow>
          if \<not> delivers h origin then h
          else (case call of
                  ReceiveAuthResult k \<Rightarrow> h
                | ReceiveMediaSelection f \<Rightarrow>
                    (resolve (Resolved f) (h\<lparr>received := received h @ [(origin, call)]\<rparr>))
                      \<lparr>cleanupTimers := Suc (cleanupTimers h)\<rparr>
                | ReceiveMediaCancel \<Rightarrow>
                    (resolve Cancelled (h\<lparr>received := received h @ [(origin, call)]\<rparr>))
                      \<lparr>cleanupTimers := Suc (cleanupTimers h)\<rparr>)
      | TimerFired \<Rightarrow>
          if cleanupTimers h = 0 then h
          else (cleanup h)\<lparr>cleanupTimers := cleanupTimers h - 1\<rparr>
      | ConnectTimeout \<Rightarrow> h)"

definition runLogin ::
    "AuthConfig \<Rightarrow> Event list \<Rightarrow> string Handshake \<times> localStorage \<Rightarrow> string Handshake \<times> localStorage" where
  "runLogin cfg evs s = fold (loginStep cfg) evs s"

definition runMedia :: "Event list \<Rightarrow> MediaFile Handshake \<Rightarrow> MediaFile Handshake" where
  "runMedia evs h = fold mediaStep evs h"

text \<open>A call from an origin other than the one the handshake was opened for.\<close>

definition foreignCall :: "string \<Rightarrow> Event \<Rightarrow> bool" where
  "foreignCall origin ev =
     (case ev of RemoteCall now sender call \<Rightarrow> sender \<noteq> origin | _ \<Rightarrow> False)"


section \<open>Derived notions\<close>

text \<open>
  An element is dirty when \<open>getDirtyElements\<close> has an entry for its id. \<open>differs\<close> is the
  test inside the loop of \<open>getDirtyElements\<close>.
\<close>

definition isDirty :: "EditorController \<Rightarrow> string \<Rightarrow> bool" where
  "isDirty st elementId = (elementId \<in> fst ` set (getDirtyElements st))"

definition differs :: "EditorController \<Rightarrow> string \<times> HTMLElement \<Rightarrow> bool" where
  "differs st p =
     (case originalContent st (fst p) of None \<Rightarrow> False | Some original \<Rightarrow> innerHTML (snd p) \<noteq> original)"

text \<open>The snapshots after the promises of a save have settled.\<close>

definition commitSaved ::
    "((string \<times> string) \<times> FetchResult) list \<Rightarrow> (string \<rightharpoonup> string) \<Rightarrow> (string \<rightharpoonup> string)" where
  "commitSaved settled oc =
     fold (\<lambda>p m. if savePromise (fst p) (snd p) = Fulfilled then m(fst (fst p) \<mapsto> snd (fst p)) else m)
          settled oc"

definition liveContent :: "EditorController \<Rightarrow> string \<rightharpoonup> string" where
  "liveContent st elementId = map_option innerHTML (map_of (editableElements st) elementId)"

text \<open>
  What holds of every controller state the code can reach: the registry is a \<open>Map\<close> (its
  keys are distinct), no key is empty (\<open>scanEditableElements\<close> skips an empty marker), and
  the id being edited is registered.
\<close>

definition wellFormed :: "EditorController \<Rightarrow> bool" where
  "wellFormed st =
     (distinct (map fst (editableElements st)) \<and>
      [] \<notin> set (map fst (editableElements st)) \<and>
      set_option (editingElementId st) \<subseteq> set (map fst (editableElements st)))"


text \<open>
  While its promise is pending a handshake still polls the popup, and no \<open>cleanup\<close>
  timer is queued.
\<close>

definition watching :: "'r Handshake \<Rightarrow> bool" where
  "watching h = (promise h \<noteq> Pending \<or> (checkClosed h \<and> cleanupTimers h = 0))"


section \<open>A concrete session\<close>

text \<open>
  An author is signed in to application \<open>app\<close> and is editing element \<open>A\<close>; \<open>A\<close> and
  \<open>B\<close> both differ from their snapshots.
\<close>

definition demoConfig :: ViewerConfig where
  "demoConfig = \<lparr>apiUrl = ''https://api.example'', appUrl = ''https://app.example'', appId = ''app'',
                  mockAuth = False\<rparr>"

definition demoElement :: "string \<Rightarrow> HTMLElement" where
  "demoElement c = \<lparr>innerHTML = c, streamlined_editable = True, streamlined_editing = False,
                     contenteditable = None, scmsClickHandler = True, scmsInputHandler = False\<rparr>"

definition demoStorage :: localStorage where
  "demoStorage = \<lparr>scms_auth = Some (Json \<lparr>auth_key = ''k1'', auth_appId = ''app'', expiresAt = 5000000\<rparr>),
                   scms_mode = Some (Json \<lparr>mode_appId = ''app'', mode_mode = author\<rparr>),
                   quotaExceeded = False\<rparr>"

definition demoSession :: EditorController where
  "demoSession =
     \<lparr>storage = demoStorage, apiKey = Some ''k1'', currentMode = author,
      editableElements =
        [(''A'', \<lparr>innerHTML = ''new-A'', streamlined_editable = True, streamlined_editing = True,
                  contenteditable = Some ''true'', scmsClickHandler = True, scmsInputHandler = True\<rparr>),
         (''B'', demoElement ''new-B'')],
      originalContent = [''A'' \<mapsto> ''old-A'', ''B'' \<mapsto> ''old-B''],
      editingElementId = Some ''A'',
      toolbar = Some \<lparr>tb_mode = author, activeElement = Some ''A'', hasChanges = True, tb_saving = False\<rparr>,
      saving = False, documentClickHandler = True, customSignInTrigger = False,
      domSignInTrigger = False, signInLinks = 0, alerts = []\<rparr>"

definition demoOrigin :: "string \<Rightarrow> string option" where
  "demoOrigin url = (if url = ''https://app.example'' then Some ''https://app.example'' else None)"


section \<open>Lemmas\<close>

subsection \<open>The registry, the invariant and the dirty set\<close>

lemma commitSaved_Nil [simp]: "commitSaved [] oc = oc"
  by (simp add: commitSaved_def)

lemma commitSaved_Cons [simp]:
  "commitSaved (p # ps) oc =
     commitSaved ps (if savePromise (fst p) (snd p) = Fulfilled then oc(fst (fst p) \<mapsto> snd (fst p)) else oc)"
  by (simp add: commitSaved_def)

lemma fold_settlePromise:
  "fold (\<lambda>p. settlePromise (fst p) (snd p)) settled st
     = st\<lparr>originalContent := commitSaved settled (originalContent st)\<rparr>"
  by (induction settled arbitrary: st) (simp_all add: settlePromise_def)

lemma handleSave_settle_unfold:
  "handleSave_settle cfg now_read now_write settled st =
     (let st1 = st\<lparr>originalContent := commitSaved settled (originalContent st)\<rparr>;
          errors = collectErrors settled
      in case refreshKeyExpiry (authConfig cfg) now_read now_write (storage st1) of
           Inl e \<Rightarrow>
             (releaseSaving
                (st1\<lparr>alerts := alerts st1 @
                        [''Failed to save: '' @ exn_message e @ [CHR 0x0A, CHR 0x0A] @
                         ''Check console for details.'']\<rparr>),
              Threw (exn_message e))
         | Inr ls \<Rightarrow>
             let st2 = st1\<lparr>storage := ls\<rparr>;
                 st3 = (if errors \<noteq> []
                        then st2\<lparr>alerts := alerts st2 @
                                   [''Failed to save some elements:'' @ [CHR 0x0A] @ join [CHR 0x0A] errors]\<rparr>
                        else stopEditing st2)
             in (releaseSaving (updateToolbarHasChanges st3), Completed (savedIds settled) errors))"
  by (simp add: handleSave_settle_def handleSave_finish_def fold_settlePromise Let_def)

lemma Map_set_fresh: "k \<notin> fst ` set m \<Longrightarrow> Map_set k v m = m @ [(k, v)]"
  by (induction m) auto

lemma keys_Map_set: "fst ` set (Map_set k v m) = insert k (fst ` set m)"
  by (induction m) auto

lemma distinct_Map_set: "distinct (map fst m) \<Longrightarrow> distinct (map fst (Map_set k v m))"
  by (induction m) (auto simp: keys_Map_set)

lemma keys_map_if: "map fst (map (\<lambda>p. if fst p = eid then (fst p, f (snd p)) else p) xs) = map fst xs"
  by (induction xs) auto

lemma keys_modifyElement [simp]: "map fst (editableElements (modifyElement eid f st)) = map fst (editableElements st)"
  by (simp add: modifyElement_def keys_map_if)

lemma keys_forEachElement [simp]: "map fst (editableElements (forEachElement f st)) = map fst (editableElements st)"
  by (simp add: forEachElement_def comp_def)

lemma editing_modifyElement [simp]: "editingElementId (modifyElement eid f st) = editingElementId st"
  by (simp add: modifyElement_def)

lemma editing_forEachElement [simp]: "editingElementId (forEachElement f st) = editingElementId st"
  by (simp add: forEachElement_def)

lemma wf_keys: "map fst (editableElements st') = map fst (editableElements st) \<Longrightarrow>
  editingElementId st' = editingElementId st \<or> editingElementId st' = None \<Longrightarrow> wellFormed st \<Longrightarrow> wellFormed st'"
  unfolding wellFormed_def by (auto simp del: set_map split: option.splits)

lemma stopEditing_keys [simp]:
  "map fst (editableElements (stopEditing st)) = map fst (editableElements st)"
  by (simp add: stopEditing_def split: option.splits)

lemma stopEditing_editing:
  "editingElementId (stopEditing st) = editingElementId st \<or> editingElementId (stopEditing st) = None"
  by (simp add: stopEditing_def split: option.splits)

lemma wf_stopEditing: "wellFormed st \<Longrightarrow> wellFormed (stopEditing st)"
  using wf_keys stopEditing_keys stopEditing_editing by blast

lemma wf_stopEditing_None: "wellFormed st \<Longrightarrow> editingElementId (stopEditing st) = None"
  unfolding wellFormed_def stopEditing_def by (auto simp del: set_map split: option.splits)

lemma map_of_keys: "map_of xs k = Some v \<Longrightarrow> k \<in> set (map fst xs)"
  by (metis map_of_SomeD set_zip_leftD zip_map_fst_snd)

lemma startEditing_keys [simp]:
  "map fst (editableElements (startEditing eid st)) = map fst (editableElements st)"
  by (simp add: startEditing_def Let_def split: option.splits)

lemma startEditing_editing:
  "editingElementId (startEditing eid st) = (if map_of (editableElements st) eid = None then editingElementId st else Some eid)"
  by (simp add: startEditing_def Let_def split: option.splits)

lemma wf_startEditing:
  assumes "wellFormed st"
  shows "wellFormed (startEditing eid st)"
proof (cases "map_of (editableElements st) eid")
  case None
  then show ?thesis using assms by (simp add: startEditing_def)
next
  case (Some el)
  then have "eid \<in> set (map fst (editableElements st))"
    by (rule map_of_keys)
  moreover have "editingElementId (startEditing eid st) = Some eid"
    using Some by (simp add: startEditing_editing)
  ultimately show ?thesis
    using assms unfolding wellFormed_def by (simp del: set_map)
qed

lemma showToolbar_frame [simp]:
  "editableElements (showToolbar st) = editableElements st"
  "editingElementId (showToolbar st) = editingElementId st"
  "saving (showToolbar st) = saving st"
  "originalContent (showToolbar st) = originalContent st"
  "currentMode (showToolbar st) = currentMode st"
  by (simp_all add: showToolbar_def split: option.splits)

lemma wf_enableAuthorMode: "wellFormed st \<Longrightarrow> wellFormed (enableAuthorMode st)"
  by (rule wf_keys[of _ st]) (simp_all add: enableAuthorMode_def)

lemma wf_enableViewerMode: "wellFormed st \<Longrightarrow> wellFormed (enableViewerMode st)"
proof (rule wf_keys[of _ st])
  show "map fst (editableElements (enableViewerMode st)) = map fst (editableElements st)"
    by (simp add: enableViewerMode_def)
  show "editingElementId (enableViewerMode st) = editingElementId st \<or> editingElementId (enableViewerMode st) = None"
    using stopEditing_editing[of "(forEachElement
              (\<lambda>e. e\<lparr>streamlined_editable := False, streamlined_editing := False,
                      contenteditable := None\<rparr>) st)
             \<lparr>documentClickHandler := False\<rparr>"]
    by (simp add: enableViewerMode_def)
qed

lemma wf_upd [simp]:
  "wellFormed (st\<lparr>storage := a\<rparr>) = wellFormed st"
  "wellFormed (st\<lparr>currentMode := b\<rparr>) = wellFormed st"
  "wellFormed (st\<lparr>toolbar := c\<rparr>) = wellFormed st"
  "wellFormed (st\<lparr>apiKey := d\<rparr>) = wellFormed st"
  "wellFormed (st\<lparr>saving := e\<rparr>) = wellFormed st"
  "wellFormed (st\<lparr>alerts := f\<rparr>) = wellFormed st"
  "wellFormed (st\<lparr>originalContent := g\<rparr>) = wellFormed st"
  "wellFormed (st\<lparr>customSignInTrigger := h\<rparr>) = wellFormed st"
  "wellFormed (st\<lparr>signInLinks := i\<rparr>) = wellFormed st"
  "wellFormed (st\<lparr>documentClickHandler := j\<rparr>) = wellFormed st"
  by (simp_all add: wellFormed_def)

lemma wf_setMode: "wellFormed st \<Longrightarrow> wellFormed (setMode cfg m st)"
  by (simp add: setMode_def Let_def wf_enableAuthorMode wf_enableViewerMode split: sum.splits)

lemma wf_forEachElement: "wellFormed st \<Longrightarrow> wellFormed (forEachElement f st)"
  by (rule wf_keys[of _ st]) simp_all

lemma wf_modifyElement: "wellFormed st \<Longrightarrow> wellFormed (modifyElement eid f st)"
  by (rule wf_keys[of _ st]) simp_all

lemma wf_signOut: "wellFormed st \<Longrightarrow> wellFormed (signOut st)"
  by (simp add: signOut_def Let_def removeToolbar_def showSignInLink_def wf_stopEditing wf_forEachElement)

lemma wf_updateToolbarHasChanges [simp]: "wellFormed (updateToolbarHasChanges st) = wellFormed st"
  by (simp add: updateToolbarHasChanges_def)

lemma wf_handleReset: "wellFormed st \<Longrightarrow> wellFormed (handleReset st)"
  by (simp add: handleReset_def wf_modifyElement split: option.splits)

lemma wf_inputEvent: "wellFormed st \<Longrightarrow> wellFormed (inputEvent eid c st)"
  by (simp add: inputEvent_def Let_def wf_modifyElement split: option.splits)

lemma wf_handleSave_begin: "wellFormed st \<Longrightarrow> wellFormed (fst (handleSave_begin cfg st))"
  by (simp add: handleSave_begin_def Let_def)

lemma wf_releaseSaving [simp]: "wellFormed (releaseSaving st) = wellFormed st"
  by (simp add: releaseSaving_def)

lemma wf_handleSave_settle: "wellFormed st \<Longrightarrow> wellFormed (fst (handleSave_settle cfg nr nw settled st))"
  by (simp add: handleSave_settle_unfold Let_def wf_stopEditing split: sum.splits)

lemma wf_elementClick: "wellFormed st \<Longrightarrow> wellFormed (elementClick eid st)"
  by (simp add: elementClick_def wf_startEditing split: option.splits)

lemma wf_handleDocumentClick: "wellFormed st \<Longrightarrow> wellFormed (handleDocumentClick outside st)"
  by (simp add: handleDocumentClick_def wf_stopEditing)

lemma wf_settlePromise: "wellFormed st \<Longrightarrow> wellFormed (settlePromise entry res st)"
  by (simp add: settlePromise_def)

lemma wf_perform: "wellFormed st \<Longrightarrow> wellFormed (perform cfg op st)"
  by (cases op)
     (simp_all add: perform_def wf_startEditing wf_stopEditing wf_setMode wf_signOut wf_handleReset
        wf_inputEvent wf_handleSave_begin wf_elementClick wf_handleDocumentClick wf_settlePromise)

lemma map_of_Map_set: "map_of (Map_set k v m) = (map_of m)(k \<mapsto> v)"
  by (induction m) (auto simp: fun_eq_iff)

lemma dirty_fold_filter:
  "distinct (map fst xs) \<Longrightarrow> fst ` set acc \<inter> fst ` set xs = {} \<Longrightarrow>
   fold (\<lambda>p dirty.
             case oc (fst p) of
               None \<Rightarrow> dirty
             | Some original \<Rightarrow>
                 if innerHTML (snd p) \<noteq> original then Map_set (fst p) (innerHTML (snd p)) dirty
                 else dirty) xs acc
   = acc @ map (\<lambda>p. (fst p, innerHTML (snd p)))
             (filter (\<lambda>p. case oc (fst p) of None \<Rightarrow> False | Some original \<Rightarrow> innerHTML (snd p) \<noteq> original) xs)"
proof (induction xs arbitrary: acc)
  case Nil
  then show ?case by simp
next
  case (Cons p xs)
  have fresh: "fst p \<notin> fst ` set acc" using Cons.prems(2) by auto
  have d: "distinct (map fst xs)" using Cons.prems(1) by simp
  have nin: "fst p \<notin> fst ` set xs" using Cons.prems(1) by simp
  show ?case
  proof (cases "oc (fst p)")
    case None
    have "fst ` set acc \<inter> fst ` set xs = {}" using Cons.prems(2) by auto
    from Cons.IH[OF d this] None show ?thesis by simp
  next
    case (Some original)
    show ?thesis
    proof (cases "innerHTML (snd p) \<noteq> original")
      case True
      have disj: "fst ` set (acc @ [(fst p, innerHTML (snd p))]) \<inter> fst ` set xs = {}"
        using Cons.prems(2) nin by auto
      from Cons.IH[OF d disj] Some True fresh show ?thesis
        by (simp add: Map_set_fresh)
    next
      case False
      have "fst ` set acc \<inter> fst ` set xs = {}" using Cons.prems(2) by auto
      from Cons.IH[OF d this] Some False show ?thesis by simp
    qed
  qed
qed

lemma getDirtyElements_filter:
  "distinct (map fst (editableElements st)) \<Longrightarrow>
   getDirtyElements st = map (\<lambda>p. (fst p, innerHTML (snd p))) (filter (differs st) (editableElements st))"
  unfolding getDirtyElements_def differs_def
  using dirty_fold_filter[of "editableElements st" "[]" "originalContent st"] by simp

subsection \<open>Dirtiness and snapshots\<close>

lemma isDirty_iff:
  assumes "distinct (map fst (editableElements st))"
  shows "isDirty st eid \<longleftrightarrow> (\<exists>el. (eid, el) \<in> set (editableElements st) \<and> differs st (eid, el))"
proof -
  have "map fst (getDirtyElements st) = map fst (filter (differs st) (editableElements st))"
    using assms by (simp add: getDirtyElements_filter comp_def)
  then have "set (map fst (getDirtyElements st)) = set (map fst (filter (differs st) (editableElements st)))"
    by simp
  then have "isDirty st eid \<longleftrightarrow> eid \<in> fst ` {p \<in> set (editableElements st). differs st p}"
    unfolding isDirty_def by simp
  also have "\<dots> \<longleftrightarrow> (\<exists>el. (eid, el) \<in> set (editableElements st) \<and> differs st (eid, el))"
    by (auto simp: image_iff)
  finally show ?thesis .
qed

lemma originalContent_modifyElement [simp]:
  "originalContent (modifyElement eid f st) = originalContent st"
  by (simp add: modifyElement_def)

lemma startEditing_originalContent:
  "originalContent (startEditing eid st) =
     (case map_of (editableElements st) eid of
        None \<Rightarrow> originalContent st
      | Some el \<Rightarrow> (case originalContent st eid of
                     None \<Rightarrow> (originalContent st)(eid \<mapsto> innerHTML el)
                   | Some s \<Rightarrow> originalContent st))"
  by (cases "map_of (editableElements st) eid"; cases "originalContent st eid";
      cases "editingElementId st")
     (simp_all add: startEditing_def Let_def)

subsection \<open>The saving flag, the edited element and the mode\<close>

lemma saving_modifyElement [simp]: "saving (modifyElement eid f st) = saving st"
  by (simp add: modifyElement_def)

lemma saving_forEachElement [simp]: "saving (forEachElement f st) = saving st"
  by (simp add: forEachElement_def)

lemma saving_stopEditing [simp]: "saving (stopEditing st) = saving st"
  by (simp add: stopEditing_def split: option.splits)

lemma saving_startEditing [simp]: "saving (startEditing eid st) = saving st"
  by (cases "map_of (editableElements st) eid"; cases "originalContent st eid";
      cases "editingElementId st")
     (simp_all add: startEditing_def Let_def)

lemma saving_updateToolbarHasChanges [simp]: "saving (updateToolbarHasChanges st) = saving st"
  by (simp add: updateToolbarHasChanges_def)

lemma saving_setMode [simp]: "saving (setMode cfg m st) = saving st"
  by (simp add: setMode_def Let_def enableAuthorMode_def enableViewerMode_def split: sum.splits)

lemma saving_signOut [simp]: "saving (signOut st) = saving st"
  by (simp add: signOut_def Let_def removeToolbar_def showSignInLink_def)

lemma saving_handleReset [simp]: "saving (handleReset st) = saving st"
  by (simp add: handleReset_def split: option.splits)

lemma saving_inputEvent [simp]: "saving (inputEvent eid c st) = saving st"
  by (simp add: inputEvent_def Let_def split: option.splits)

lemma saving_perform: "saving st \<Longrightarrow> saving (perform cfg op st)"
  by (cases op)
     (simp_all add: perform_def handleSave_begin_def Let_def elementClick_def handleDocumentClick_def
        settlePromise_def split: option.splits)

lemma saving_performs: "saving st \<Longrightarrow> saving (fold (perform cfg) ops st)"
  by (induction ops arbitrary: st) (simp_all add: saving_perform)

lemma saving_finish: "\<not> saving (fst (handleSave_finish cfg nr nw settled st))"
  by (simp add: handleSave_finish_def Let_def releaseSaving_def split: sum.splits)

lemma saving_settle: "\<not> saving (fst (handleSave_settle cfg nr nw settled st))"
  by (simp add: handleSave_settle_unfold Let_def releaseSaving_def split: sum.splits)

lemma editing_settlePromise [simp]:
  "editingElementId (settlePromise entry res st) = editingElementId st"
  by (simp add: settlePromise_def)

lemma editing_updateToolbarHasChanges [simp]:
  "editingElementId (updateToolbarHasChanges st) = editingElementId st"
  by (simp add: updateToolbarHasChanges_def)

lemma mode_modifyElement [simp]: "currentMode (modifyElement eid f st) = currentMode st"
  by (simp add: modifyElement_def)

lemma mode_forEachElement [simp]: "currentMode (forEachElement f st) = currentMode st"
  by (simp add: forEachElement_def)

lemma mode_stopEditing [simp]: "currentMode (stopEditing st) = currentMode st"
  by (simp add: stopEditing_def split: option.splits)

lemma signOut_mode: "currentMode (signOut st) = currentMode st"
  by (simp add: signOut_def Let_def removeToolbar_def showSignInLink_def)

lemma signOut_editing: "wellFormed st \<Longrightarrow> editingElementId (signOut st) = None"
  using wf_stopEditing_None[OF wf_forEachElement, of "st\<lparr>storage := clearStoredKey (storage st), apiKey := None\<rparr>"]
  by (simp add: signOut_def Let_def removeToolbar_def showSignInLink_def)

subsection \<open>The credential store\<close>

lemma storage_modifyElement [simp]: "storage (modifyElement eid f st) = storage st"
  by (simp add: modifyElement_def)

lemma storage_settlePromise [simp]: "storage (settlePromise entry res st) = storage st"
  by (simp add: settlePromise_def)

lemma storage_stopEditing [simp]: "storage (stopEditing st) = storage st"
  by (simp add: stopEditing_def split: option.splits)

lemma storage_updateToolbarHasChanges [simp]: "storage (updateToolbarHasChanges st) = storage st"
  by (simp add: updateToolbarHasChanges_def)

lemma storeKey_expiry:
  "storeKey cfg now k ls = Inr ls' \<Longrightarrow>
   scms_auth ls' = Some (Json \<lparr>auth_key = k, auth_appId = cfg_appId cfg, expiresAt = now + 3600000\<rparr>)"
  by (auto simp: storeKey_def KEY_EXPIRY_MS_def split: if_splits)

lemma refreshKeyExpiry_cases:
  "refreshKeyExpiry cfg nr nw ls = Inr ls' \<Longrightarrow>
   ls' = snd (getStoredKey cfg nr ls) \<or>
   (\<exists>k. fst (getStoredKey cfg nr ls) = Some k \<and> k \<noteq> [] \<and>
        scms_auth ls' = Some (Json \<lparr>auth_key = k, auth_appId = cfg_appId cfg, expiresAt = nw + 3600000\<rparr>))"
  by (cases "getStoredKey cfg nr ls")
     (auto simp: refreshKeyExpiry_def split: option.splits if_splits dest: storeKey_expiry)

lemma refreshKeyExpiry_writes:
  assumes "fst (getStoredKey cfg nr ls) = Some k" "k \<noteq> []" "\<not> quotaExceeded ls"
  shows "\<exists>ls'. refreshKeyExpiry cfg nr nw ls = Inr ls' \<and>
           scms_auth ls' = Some (Json \<lparr>auth_key = k, auth_appId = cfg_appId cfg, expiresAt = nw + 3600000\<rparr>)"
proof -
  have "snd (getStoredKey cfg nr ls) = ls"
    using assms(1) by (auto simp: getStoredKey_def split: option.splits item.splits if_splits)
  then have g: "getStoredKey cfg nr ls = (Some k, ls)"
    using assms(1) by (cases "getStoredKey cfg nr ls") simp
  show ?thesis
    using assms(2,3) by (simp add: refreshKeyExpiry_def g storeKey_def KEY_EXPIRY_MS_def)
qed

subsection \<open>Runs of a handshake\<close>

lemma resolve_frame [simp]:
  "checkClosed (resolve v h) = checkClosed h"
  "connection (resolve v h) = connection h"
  "allowedOrigins (resolve v h) = allowedOrigins h"
  "cleanupTimers (resolve v h) = cleanupTimers h"
  "received (resolve v h) = received h"
  by (simp_all add: resolve_def)

lemma cleanup_frame [simp]:
  "promise (cleanup h) = promise h"
  "allowedOrigins (cleanup h) = allowedOrigins h"
  "cleanupTimers (cleanup h) = cleanupTimers h"
  "received (cleanup h) = received h"
  "checkClosed (cleanup h) = False"
  "connection (cleanup h) = False"
  by (simp_all add: cleanup_def)

lemma pollTick_frame [simp]:
  "allowedOrigins (pollTick c h) = allowedOrigins h"
  "received (pollTick c h) = received h"
  "cleanupTimers (pollTick c h) = cleanupTimers h"
  by (simp_all add: pollTick_def)

lemma pollTick_open [simp]: "pollTick False h = h"
  by (simp add: pollTick_def)

lemma pollTick_closed: "promise h = Pending \<Longrightarrow> checkClosed h \<Longrightarrow> promise (pollTick True h) = Cancelled"
  by (simp add: pollTick_def resolve_def)

lemma loginStep_allowedOrigins [simp]:
  "allowedOrigins (fst (loginStep cfg ev s)) = allowedOrigins (fst s)"
  by (cases s; cases ev)
     (auto simp: loginStep_def Let_def split: Remote.splits sum.splits)

lemma mediaStep_allowedOrigins [simp]:
  "allowedOrigins (mediaStep ev h) = allowedOrigins h"
  by (cases ev) (auto simp: mediaStep_def split: Remote.splits)

lemma runLogin_Nil [simp]: "runLogin cfg [] s = s"
  by (simp add: runLogin_def)

lemma runLogin_Cons [simp]: "runLogin cfg (e # evs) s = runLogin cfg evs (loginStep cfg e s)"
  by (simp add: runLogin_def)

lemma runLogin_append: "runLogin cfg (xs @ ys) s = runLogin cfg ys (runLogin cfg xs s)"
  by (simp add: runLogin_def)

lemma runMedia_Nil [simp]: "runMedia [] h = h"
  by (simp add: runMedia_def)

lemma runMedia_Cons [simp]: "runMedia (e # evs) h = runMedia evs (mediaStep e h)"
  by (simp add: runMedia_def)

lemma runMedia_append: "runMedia (xs @ ys) h = runMedia ys (runMedia xs h)"
  by (simp add: runMedia_def)

lemma runLogin_allowedOrigins [simp]:
  "allowedOrigins (fst (runLogin cfg evs s)) = allowedOrigins (fst s)"
  by (induction evs arbitrary: s) simp_all

lemma runMedia_allowedOrigins [simp]:
  "allowedOrigins (runMedia evs h) = allowedOrigins h"
  by (induction evs arbitrary: h) simp_all

lemma loginStep_foreign:
  "set (allowedOrigins (fst s)) \<subseteq> {origin} \<Longrightarrow> foreignCall origin ev \<Longrightarrow> loginStep cfg ev s = s"
  by (cases s; cases ev) (auto simp: loginStep_def foreignCall_def delivers_def)

lemma mediaStep_foreign:
  "set (allowedOrigins h) \<subseteq> {origin} \<Longrightarrow> foreignCall origin ev \<Longrightarrow> mediaStep ev h = h"
  by (cases ev) (auto simp: mediaStep_def foreignCall_def delivers_def)

lemma runLogin_filter_foreign:
  "set (allowedOrigins (fst s)) \<subseteq> {origin} \<Longrightarrow>
   runLogin cfg (filter (\<lambda>e. \<not> foreignCall origin e) evs) s = runLogin cfg evs s"
proof (induction evs arbitrary: s)
  case Nil
  then show ?case by simp
next
  case (Cons e evs)
  have inv: "set (allowedOrigins (fst (loginStep cfg e s))) \<subseteq> {origin}"
    using Cons.prems by simp
  show ?case
  proof (cases "foreignCall origin e")
    case True
    then show ?thesis using Cons.IH[OF Cons.prems] loginStep_foreign[OF Cons.prems True] by simp
  next
    case False
    then show ?thesis using Cons.IH[OF inv] by simp
  qed
qed

lemma runMedia_filter_foreign:
  "set (allowedOrigins h) \<subseteq> {origin} \<Longrightarrow>
   runMedia (filter (\<lambda>e. \<not> foreignCall origin e) evs) h = runMedia evs h"
proof (induction evs arbitrary: h)
  case Nil
  then show ?case by simp
next
  case (Cons e evs)
  have inv: "set (allowedOrigins (mediaStep e h)) \<subseteq> {origin}"
    using Cons.prems by simp
  show ?case
  proof (cases "foreignCall origin e")
    case True
    then show ?thesis using Cons.IH[OF Cons.prems] mediaStep_foreign[OF Cons.prems True] by simp
  next
    case False
    then show ?thesis using Cons.IH[OF inv] by simp
  qed
qed

lemma loginStep_received:
  "set (allowedOrigins (fst s)) \<subseteq> {origin} \<Longrightarrow> fst ` set (received (fst s)) \<subseteq> {origin} \<Longrightarrow>
   fst ` set (received (fst (loginStep cfg ev s))) \<subseteq> {origin}"
  by (cases s; cases ev)
     (auto simp: loginStep_def Let_def delivers_def split: Remote.splits sum.splits)

lemma mediaStep_received:
  "set (allowedOrigins h) \<subseteq> {origin} \<Longrightarrow> fst ` set (received h) \<subseteq> {origin} \<Longrightarrow>
   fst ` set (received (mediaStep ev h)) \<subseteq> {origin}"
  by (cases ev) (auto simp: mediaStep_def delivers_def resolve_def split: Remote.splits)

lemma runLogin_received:
  "set (allowedOrigins (fst s)) \<subseteq> {origin} \<Longrightarrow> fst ` set (received (fst s)) \<subseteq> {origin} \<Longrightarrow>
   fst ` set (received (fst (runLogin cfg evs s))) \<subseteq> {origin}"
proof (induction evs arbitrary: s)
  case Nil
  then show ?case by simp
next
  case (Cons e evs)
  have "set (allowedOrigins (fst (loginStep cfg e s))) \<subseteq> {origin}" using Cons.prems(1) by simp
  moreover have "fst ` set (received (fst (loginStep cfg e s))) \<subseteq> {origin}"
    using Cons.prems by (rule loginStep_received)
  ultimately show ?case using Cons.IH by simp
qed

lemma runMedia_received:
  "set (allowedOrigins h) \<subseteq> {origin} \<Longrightarrow> fst ` set (received h) \<subseteq> {origin} \<Longrightarrow>
   fst ` set (received (runMedia evs h)) \<subseteq> {origin}"
proof (induction evs arbitrary: h)
  case Nil
  then show ?case by simp
next
  case (Cons e evs)
  have "set (allowedOrigins (mediaStep e h)) \<subseteq> {origin}" using Cons.prems(1) by simp
  moreover have "fst ` set (received (mediaStep e h)) \<subseteq> {origin}"
    using Cons.prems by (rule mediaStep_received)
  ultimately show ?case using Cons.IH by simp
qed

lemma loginStep_quiet:
  "ev = ConnectTimeout \<or> ev = PollTick False \<Longrightarrow> loginStep cfg ev s = s"
  by (cases s) (auto simp: loginStep_def)

lemma mediaStep_quiet:
  "ev = ConnectTimeout \<or> ev = PollTick False \<Longrightarrow> mediaStep ev h = h"
  by (auto simp: mediaStep_def)

lemma runLogin_quiet:
  "set evs \<subseteq> {ConnectTimeout, PollTick False} \<Longrightarrow> runLogin cfg evs s = s"
  by (induction evs arbitrary: s) (auto simp: loginStep_quiet)

lemma runMedia_quiet:
  "set evs \<subseteq> {ConnectTimeout, PollTick False} \<Longrightarrow> runMedia evs h = h"
  by (induction evs arbitrary: h) (auto simp: mediaStep_quiet)

lemma loginStep_watching: "watching (fst s) \<Longrightarrow> watching (fst (loginStep cfg ev s))"
  by (cases s; cases ev)
     (auto simp: loginStep_def watching_def Let_def pollTick_def resolve_def cleanup_def
           split: Remote.splits sum.splits)

lemma mediaStep_watching: "watching h \<Longrightarrow> watching (mediaStep ev h)"
  by (cases ev)
     (auto simp: mediaStep_def watching_def pollTick_def resolve_def cleanup_def
           split: Remote.splits)

lemma runLogin_watching: "watching (fst s) \<Longrightarrow> watching (fst (runLogin cfg evs s))"
  by (induction evs arbitrary: s) (simp_all add: loginStep_watching)

lemma runMedia_watching: "watching h \<Longrightarrow> watching (runMedia evs h)"
  by (induction evs arbitrary: h) (simp_all add: mediaStep_watching)

lemma openPopup_watching: "watching (openPopup originOf cfg tmo opened)"
  by (simp add: openPopup_def watching_def split: option.splits)

lemma watching_closed: "watching h \<Longrightarrow> promise h = Pending \<Longrightarrow> promise (pollTick True h) = Cancelled"
  by (simp add: watching_def pollTick_closed)

lemma loginStep_settled:
  "promise (fst s) \<noteq> Pending \<Longrightarrow> promise (fst (loginStep cfg ev s)) = promise (fst s)"
  by (cases s; cases ev)
     (auto simp: loginStep_def Let_def pollTick_def resolve_def cleanup_def
           split: Remote.splits sum.splits)

lemma mediaStep_settled:
  "promise h \<noteq> Pending \<Longrightarrow> promise (mediaStep ev h) = promise h"
  by (cases ev)
     (auto simp: mediaStep_def pollTick_def resolve_def cleanup_def split: Remote.splits)

lemma runLogin_settled:
  "promise (fst s) \<noteq> Pending \<Longrightarrow> promise (fst (runLogin cfg evs s)) = promise (fst s)"
  by (induction evs arbitrary: s) (simp_all add: loginStep_settled)

lemma runMedia_settled:
  "promise h \<noteq> Pending \<Longrightarrow> promise (runMedia evs h) = promise h"
  by (induction evs arbitrary: h) (simp_all add: mediaStep_settled)

lemma handshake_cancelled_by_close:
  "(promise (fst (runLogin cfg evs (openLoginPopup originOf cfg opened, ls))) = Pending \<longrightarrow>
      promise (fst (runLogin cfg (evs @ [PollTick True]) (openLoginPopup originOf cfg opened, ls))) = Cancelled) \<and>
   (promise (runMedia evs (openMediaManager originOf cfg opened)) = Pending \<longrightarrow>
      promise (runMedia (evs @ [PollTick True]) (openMediaManager originOf cfg opened)) = Cancelled) \<and>
   promise (openLoginPopup originOf cfg False) = Cancelled \<and>
   promise (openMediaManager originOf cfg False) = Cancelled"
proof -
  let ?l = "runLogin cfg evs (openLoginPopup originOf cfg opened, ls)"
  let ?m = "runMedia evs (openMediaManager originOf cfg opened)"
  have wl: "watching (fst ?l)"
    by (rule runLogin_watching) (simp add: openLoginPopup_def openPopup_watching)
  have wm: "watching ?m"
    by (rule runMedia_watching) (simp add: openMediaManager_def openPopup_watching)
  have a: "promise (fst ?l) = Pending \<longrightarrow>
      promise (fst (runLogin cfg (evs @ [PollTick True]) (openLoginPopup originOf cfg opened, ls))) = Cancelled"
    using watching_closed[OF wl] by (cases ?l) (simp add: runLogin_append loginStep_def)
  have b: "promise ?m = Pending \<longrightarrow>
      promise (runMedia (evs @ [PollTick True]) (openMediaManager originOf cfg opened)) = Cancelled"
    using watching_closed[OF wm] by (simp add: runMedia_append mediaStep_def)
  have d: "promise (openLoginPopup originOf cfg False) = Cancelled"
          "promise (openMediaManager originOf cfg False) = Cancelled"
    by (simp_all add: openLoginPopup_def openMediaManager_def openPopup_def)
  from a b d show ?thesis by blast
qed

subsection \<open>The concrete session, evaluated\<close>

lemma show_nat_500: "show_nat 500 = ''500''"
  by (simp add: show_nat.simps digit_def)

lemma demo_dirty: "getDirtyElements demoSession = [(''A'', ''new-A''), (''B'', ''new-B'')]"
  by (simp add: getDirtyElements_def demoSession_def demoElement_def)

lemma demo_begin: "snd (handleSave_begin demoConfig demoSession) =
   Some [((''A'', ''new-A''), \<lparr>req_url = ''https://api.example/apps/app/content/A'', req_method = ''PUT'',
            req_headers = [(''Content-Type'', ''application/json''), (''Authorization'', ''Bearer k1'')],
            req_content = ''new-A''\<rparr>),
         ((''B'', ''new-B''), \<lparr>req_url = ''https://api.example/apps/app/content/B'', req_method = ''PUT'',
            req_headers = [(''Content-Type'', ''application/json''), (''Authorization'', ''Bearer k1'')],
            req_content = ''new-B''\<rparr>)]"
  by (simp add: handleSave_begin_def demo_dirty saveRequest_def saveHeaders_def demoConfig_def)
     (simp add: demoSession_def)

lemma demo_settle_outcome:
  "snd (handleSave_settle demoConfig 1000 1001
          [((''A'', ''new-A''), NetworkError ''Failed to fetch''),
           ((''B'', ''new-B''), Response 200 ''OK'' None)]
          (fst (handleSave_begin demoConfig demoSession)))
   = Completed [''B''] [''Failed to fetch'']"
  by (simp add: handleSave_settle_unfold Let_def handleSave_begin_def demo_dirty collectErrors_def savedIds_def
       savePromise_def response_ok_def refreshKeyExpiry_def getStoredKey_def storeKey_def authConfig_def
       demoConfig_def demoSession_def demoStorage_def)

lemma demo_settle_outcome2:
  "snd (handleSave_settle demoConfig 1000 1001
          [((''A'', ''new-A''), Response 500 ''Internal Server Error'' None),
           ((''B'', ''new-B''), Response 200 ''OK'' None)]
          (fst (handleSave_begin demoConfig demoSession)))
   = Completed [''B''] [''A: 500 Internal Server Error'']"
  by (simp add: handleSave_settle_unfold Let_def handleSave_begin_def demo_dirty collectErrors_def savedIds_def
       savePromise_def response_ok_def refreshKeyExpiry_def getStoredKey_def storeKey_def authConfig_def
       demoConfig_def demoSession_def demoStorage_def show_nat_500)

lemma demo_settle_outcome3:
  "snd (handleSave_settle demoConfig 1000 1001
          [((''A'', ''new-A''), Response 200 ''OK'' None),
           ((''B'', ''new-B''), Response 200 ''OK'' None)]
          (fst (handleSave_begin demoConfig demoSession)))
   = Completed [''A'', ''B''] []"
  by (simp add: handleSave_settle_unfold Let_def handleSave_begin_def demo_dirty collectErrors_def savedIds_def
       savePromise_def response_ok_def refreshKeyExpiry_def getStoredKey_def storeKey_def authConfig_def
       demoConfig_def demoSession_def demoStorage_def)



lemma demo_signOut: "currentMode (signOut demoSession) = author \<and> editingElementId (signOut demoSession) = None"
  by (simp add: signOut_def Let_def demoSession_def forEachElement_def stopEditing_def modifyElement_def
        removeToolbar_def showSignInLink_def)

subsection \<open>Aggregating the answers of a save\<close>

lemma collectErrors_length:
  "length (collectErrors settled) = length (filter (\<lambda>p. savePromise (fst p) (snd p) \<noteq> Fulfilled) settled)"
  unfolding collectErrors_def
  by (induction settled) (auto split: Settled.splits)

lemma savedIds_length:
  "length (savedIds settled) = length (filter (\<lambda>p. savePromise (fst p) (snd p) = Fulfilled) settled)"
  by (simp add: savedIds_def)

lemma saved_plus_errors:
  "length (savedIds settled) + length (collectErrors settled) = length settled"
  unfolding collectErrors_length savedIds_length
  by (induction settled) auto

lemma commitSaved_other:
  "k \<notin> set (savedIds settled) \<Longrightarrow> commitSaved settled oc k = oc k"
  by (induction settled arbitrary: oc) (auto simp: savedIds_def)

lemma commitSaved_saved:
  "distinct (map (\<lambda>p. fst (fst p)) settled) \<Longrightarrow> ((k, c), r) \<in> set settled \<Longrightarrow>
   savePromise (k, c) r = Fulfilled \<Longrightarrow> commitSaved settled oc k = Some c"
proof (induction settled arbitrary: oc)
  case Nil
  then show ?case by simp
next
  case (Cons p ps)
  show ?case
  proof (cases "p = ((k, c), r)")
    case True
    have "k \<notin> set (savedIds ps)"
      using Cons.prems(1) True by (auto simp: savedIds_def)
    then show ?thesis using True Cons.prems(3) by (simp add: commitSaved_other)
  next
    case False
    then have "((k, c), r) \<in> set ps" using Cons.prems(2) by simp
    moreover have "distinct (map (\<lambda>p. fst (fst p)) ps)" using Cons.prems(1) by simp
    ultimately show ?thesis using Cons.IH Cons.prems(3) by simp
  qed
qed

subsection \<open>Snapshots and dirtiness after a save\<close>

lemma liveContent_iff:
  "distinct (map fst (editableElements st)) \<Longrightarrow>
   (liveContent st k = Some c) = (\<exists>el. (k, el) \<in> set (editableElements st) \<and> innerHTML el = c)"
  by (auto simp: liveContent_def)

lemma isDirty_live:
  assumes "distinct (map fst (editableElements st))"
  shows "isDirty st k \<longleftrightarrow>
           (\<exists>c original. liveContent st k = Some c \<and> originalContent st k = Some original \<and> c \<noteq> original)"
proof -
  have d: "\<And>el. differs st (k, el) = (\<exists>original. originalContent st k = Some original \<and> innerHTML el \<noteq> original)"
    by (simp add: differs_def split: option.splits)
  show ?thesis
    unfolding isDirty_iff[OF assms] liveContent_iff[OF assms] d by blast
qed

lemma dirty_keys_distinct:
  assumes "distinct (map fst (editableElements st))"
  shows "distinct (map fst (getDirtyElements st))"
proof -
  have "map fst (getDirtyElements st) = map fst (filter (differs st) (editableElements st))"
    using assms by (simp add: getDirtyElements_filter comp_def)
  then show ?thesis using assms by (simp add: distinct_map_filter)
qed

lemma dirty_entry_live:
  assumes "distinct (map fst (editableElements st))" "(k, c) \<in> set (getDirtyElements st)"
  shows "liveContent st k = Some c"
proof -
  from assms obtain p where "p \<in> set (editableElements st)" "fst p = k" "innerHTML (snd p) = c"
    by (auto simp: getDirtyElements_filter)
  then have "(k, snd p) \<in> set (editableElements st) \<and> innerHTML (snd p) = c"
    by (cases p) auto
  then show ?thesis using liveContent_iff[OF assms(1)] by blast
qed

lemma liveContent_modifyElement:
  "(\<And>e. innerHTML (f e) = innerHTML e) \<Longrightarrow> liveContent (modifyElement eid f st) = liveContent st"
proof (rule ext)
  fix k
  assume f: "\<And>e. innerHTML (f e) = innerHTML e"
  have "map_option innerHTML (map_of (map (\<lambda>p. if fst p = eid then (fst p, f (snd p)) else p) xs) k)
        = map_option innerHTML (map_of xs k)" for xs
    by (induction xs) (auto simp: f)
  then show "liveContent (modifyElement eid f st) k = liveContent st k"
    by (simp add: liveContent_def modifyElement_def)
qed

lemma liveContent_stopEditing [simp]: "liveContent (stopEditing st) = liveContent st"
proof (cases "editingElementId st")
  case None
  then show ?thesis by (simp add: stopEditing_def)
next
  case (Some eid)
  have "liveContent (modifyElement eid
          (\<lambda>e. e\<lparr>streamlined_editing := False, contenteditable := Some ''false''\<rparr>) st) = liveContent st"
    by (rule liveContent_modifyElement) simp
  then show ?thesis using Some by (simp add: stopEditing_def liveContent_def fun_eq_iff)
qed

lemma liveContent_upd [simp]:
  "liveContent (st\<lparr>storage := a\<rparr>) = liveContent st"
  "liveContent (st\<lparr>toolbar := c\<rparr>) = liveContent st"
  "liveContent (st\<lparr>saving := e\<rparr>) = liveContent st"
  "liveContent (st\<lparr>alerts := f\<rparr>) = liveContent st"
  "liveContent (st\<lparr>originalContent := g\<rparr>) = liveContent st"
  by (simp_all add: liveContent_def fun_eq_iff)

lemma originalContent_stopEditing [simp]: "originalContent (stopEditing st) = originalContent st"
  by (simp add: stopEditing_def split: option.splits)

lemma settle_frame:
  assumes "handleSave_settle cfg nr nw settled st = (st', Completed saved errors)"
  shows "liveContent st' = liveContent st"
    and "originalContent st' = commitSaved settled (originalContent st)"
    and "saved = savedIds settled"
    and "errors = collectErrors settled"
  using assms
  by (auto simp: handleSave_settle_unfold Let_def releaseSaving_def updateToolbarHasChanges_def
           split: sum.splits if_splits)

lemma savedIds_member:
  "k \<in> set (savedIds settled) \<Longrightarrow>
   \<exists>c r. ((k, c), r) \<in> set settled \<and> savePromise (k, c) r = Fulfilled"
proof -
  assume "k \<in> set (savedIds settled)"
  then obtain p where p: "p \<in> set settled" "savePromise (fst p) (snd p) = Fulfilled" "fst (fst p) = k"
    by (auto simp: savedIds_def)
  obtain c r where "p = ((k, c), r)" using p(3) by (cases p) auto
  then show ?thesis using p by auto
qed

lemma handleSave_partition:
  assumes w: "wellFormed st" and ns: "\<not> saving st"
    and run: "handleSave cfg nr nw fetch st = (st', Completed saved errors)"
  shows "length saved + length errors = length (getDirtyElements st)"
    and "k \<in> set saved \<Longrightarrow> \<not> isDirty st' k \<and> originalContent st' k = liveContent st k"
    and "isDirty st k \<Longrightarrow> k \<notin> set saved \<Longrightarrow> isDirty st' k \<and> originalContent st' k = originalContent st k"
proof -
  let ?dirty = "getDirtyElements st"
  let ?st1 = "st\<lparr>saving := True, toolbar := map_option (\<lambda>t. t\<lparr>tb_saving := True\<rparr>) (toolbar st)\<rparr>"
  let ?settled = "map (\<lambda>entry. (entry, fetch (saveRequest cfg st entry))) ?dirty"
  have ne: "?dirty \<noteq> []"
    using run by (auto simp: handleSave_def handleSave_begin_def Let_def)
  have settle: "handleSave_settle cfg nr nw ?settled ?st1 = (st', Completed saved errors)"
    using run ne ns by (simp add: handleSave_def handleSave_begin_def Let_def comp_def)
  note fr = settle_frame[OF settle]
  have d: "distinct (map fst (editableElements st))" using w by (simp add: wellFormed_def)
  have w': "wellFormed st'"
    using wf_handleSave_settle[of ?st1 cfg nr nw ?settled] w settle by simp
  then have d': "distinct (map fst (editableElements st'))" by (simp add: wellFormed_def)
  have live: "liveContent st' = liveContent st" using fr(1) by simp
  have oc: "originalContent st' = commitSaved ?settled (originalContent st)" using fr(2) by simp
  have ids: "map (\<lambda>p. fst (fst p)) ?settled = map fst ?dirty" by (simp add: comp_def)
  have dd: "distinct (map (\<lambda>p. fst (fst p)) ?settled)"
    unfolding ids by (rule dirty_keys_distinct[OF d])
  show "length saved + length errors = length ?dirty"
    using saved_plus_errors[of ?settled] fr(3,4) by simp
  show "\<not> isDirty st' k \<and> originalContent st' k = liveContent st k" if k: "k \<in> set saved"
  proof -
    from k fr(3) have "k \<in> set (savedIds ?settled)" by simp
    from savedIds_member[OF this]
    obtain c r where m: "((k, c), r) \<in> set ?settled" "savePromise (k, c) r = Fulfilled"
      by blast
    from m(1) have "(k, c) \<in> set ?dirty" by auto
    then have lc: "liveContent st k = Some c" by (rule dirty_entry_live[OF d])
    have "originalContent st' k = Some c"
      unfolding oc by (rule commitSaved_saved[OF dd m])
    then show ?thesis using lc live isDirty_live[OF d', of k] by simp
  qed
  show "isDirty st' k \<and> originalContent st' k = originalContent st k"
    if k: "isDirty st k" and nk: "k \<notin> set saved"
  proof -
    have "originalContent st' k = originalContent st k"
      unfolding oc using nk fr(3) by (simp add: commitSaved_other)
    then show ?thesis using k live isDirty_live[OF d, of k] isDirty_live[OF d', of k] by simp
  qed
qed

subsection \<open>Writing the credential\<close>

lemma loginStep_store:
  assumes "delivers h origin" "\<not> quotaExceeded ls"
  shows "scms_auth (snd (loginStep cfg (RemoteCall now origin (ReceiveAuthResult k)) (h, ls)))
           = Some (Json \<lparr>auth_key = k, auth_appId = cfg_appId cfg, expiresAt = now + 3600000\<rparr>) \<and>
         promise (fst (loginStep cfg (RemoteCall now origin (ReceiveAuthResult k)) (h, ls)))
           = (if promise h = Pending then Resolved k else promise h)"
  using assms by (simp add: loginStep_def Let_def storeKey_def KEY_EXPIRY_MS_def resolve_def)

lemma settle_storage:
  "storage (fst (handleSave_settle cfg nr nw settled st)) =
     (case refreshKeyExpiry (authConfig cfg) nr nw (storage st) of Inl e \<Rightarrow> storage st | Inr ls \<Rightarrow> ls)"
  by (simp add: handleSave_settle_unfold Let_def releaseSaving_def split: sum.splits)

subsection \<open>Session start\<close>

lemma scan_fold_keys:
  fixes nodes :: "(string \<times> HTMLElement) list"
  defines "g \<equiv> (\<lambda>p m. if fst p = [] then m else Map_set (fst p) (snd p) m)"
  shows "distinct (map fst m) \<Longrightarrow> [] \<notin> set (map fst m) \<Longrightarrow>
   distinct (map fst (fold g nodes m)) \<and> [] \<notin> set (map fst (fold g nodes m)) \<and>
   set (map fst m) \<subseteq> set (map fst (fold g nodes m))"
proof (induction nodes arbitrary: m)
  case Nil
  then show ?case by simp
next
  case (Cons p nodes)
  show ?case
  proof (cases "fst p = []")
    case True
    then have "g p m = m" by (simp add: g_def)
    then show ?thesis using Cons.IH[OF Cons.prems] by simp
  next
    case False
    then have gp: "g p m = Map_set (fst p) (snd p) m" by (simp add: g_def)
    have 1: "distinct (map fst (g p m))"
      unfolding gp using Cons.prems(1) by (rule distinct_Map_set)
    have 2: "[] \<notin> set (map fst (g p m))"
      unfolding gp using Cons.prems(2) False by (simp add: keys_Map_set)
    have 3: "set (map fst m) \<subseteq> set (map fst (g p m))"
      unfolding gp by (auto simp: keys_Map_set)
    from Cons.IH[OF 1 2]
    have ih: "distinct (map fst (fold g nodes (g p m)))" "[] \<notin> set (map fst (fold g nodes (g p m)))"
      "set (map fst (g p m)) \<subseteq> set (map fst (fold g nodes (g p m)))"
      by blast+
    have "set (map fst m) \<subseteq> set (map fst (fold g nodes (g p m)))"
      using 3 ih(3) by (rule subset_trans)
    then show ?thesis using ih(1,2) by (simp del: set_map)
  qed
qed

lemma wf_scanEditableElements: "wellFormed st \<Longrightarrow> wellFormed (scanEditableElements nodes st)"
  using scan_fold_keys[of "editableElements st" nodes]
  unfolding wellFormed_def scanEditableElements_def by (simp del: set_map) blast

lemma wf_newController: "wellFormed (newController ls trigger)"
  by (simp add: wellFormed_def newController_def)

lemma wf_showSignInLink: "wellFormed st \<Longrightarrow> wellFormed (showSignInLink st)"
  by (simp add: showSignInLink_def Let_def removeToolbar_def)

lemma wf_setupAuthUI: "wellFormed st \<Longrightarrow> wellFormed (setupAuthUI cfg now st)"
  by (cases "getStoredKey (authConfig cfg) now (storage st)")
     (simp add: setupAuthUI_def Let_def wf_showSignInLink wf_setMode)

lemma wf_init: "wellFormed (init cfg now nodes (newController ls trigger))"
  by (simp add: init_def Let_def wf_setupAuthUI wf_setMode wf_scanEditableElements wf_newController)

lemma demo_wellFormed: "wellFormed demoSession"
  by (simp add: wellFormed_def demoSession_def)

lemma error_entries:
  "collectErrors [(entry, NetworkError msg)] = [if msg = [] then ''Unknown error'' else msg]"
  "\<not> response_ok status \<Longrightarrow>
     collectErrors [(entry, Response status statusText body)]
       = [fst entry @ '': '' @ show_nat status @ '' '' @ statusText]"
  by (simp_all add: collectErrors_def savePromise_def)


lemma signOut_then_click:
  "editingElementId (elementClick ''B'' (signOut demoSession)) = Some ''B''"
  by (simp add: signOut_def Let_def demoSession_def demoElement_def forEachElement_def stopEditing_def
        modifyElement_def removeToolbar_def showSignInLink_def elementClick_def startEditing_def)

lemma signOut_storage: "storage (signOut st) = clearStoredKey (storage st)"
  by (simp add: signOut_def Let_def removeToolbar_def showSignInLink_def forEachElement_def)

lemma signOut_apiKey: "apiKey (signOut st) = None"
  by (simp add: signOut_def Let_def removeToolbar_def showSignInLink_def forEachElement_def
        stopEditing_def modifyElement_def split: option.splits)


section \<open>The claims\<close>

subsection \<open>C1: the error report of a batched save\<close>

text \<open>
  Claim C1: in a batched save the ids that succeed get their snapshot set to the saved
  content, the ids that fail keep theirs, and the error report has one entry per failed
  id, each of the form \<open>"<id>: <statusOrMessage>"\<close>, for a status that is not ok and
  for a transport fault alike. The counts hold (\<open>handleSave_partition\<close>,
  \<open>saved_plus_errors\<close>), and a status that is not ok is reported under its id
  (\<open>error_entries\<close>). The form fails for a transport fault: in the concrete session, when
  the request for \<open>A\<close> is rejected by \<open>fetch\<close> and the one for \<open>B\<close> succeeds, the report
  is the bare message \<open>Failed to fetch\<close>, which does not name \<open>A\<close>; the same save with
  status 500 for \<open>A\<close> reports \<open>A: 500 Internal Server Error\<close>.
\<close>

theorem handleSave_transport_fault_loses_id:
  "snd (handleSave_settle demoConfig 1000 1001
          [((''A'', ''new-A''), NetworkError ''Failed to fetch''),
           ((''B'', ''new-B''), Response 200 ''OK'' None)]
          (fst (handleSave_begin demoConfig demoSession)))
     = Completed [''B''] [''Failed to fetch''] \<and>
   snd (handleSave_settle demoConfig 1000 1001
          [((''A'', ''new-A''), Response 500 ''Internal Server Error'' None),
           ((''B'', ''new-B''), Response 200 ''OK'' None)]
          (fst (handleSave_begin demoConfig demoSession)))
     = Completed [''B''] [''A: 500 Internal Server Error'']"
  using demo_settle_outcome demo_settle_outcome2 by simp

subsection \<open>C2: dirtiness is derived from snapshot and live content\<close>

text \<open>
  Claim C2: an element is dirty exactly when it is registered, a snapshot exists for its
  id and its live content differs from the snapshot; with no snapshot it is not dirty.
  The registry's keys are distinct, as those of a \<open>Map\<close> are.
\<close>

theorem dirty_iff_snapshot_differs:
  assumes "distinct (map fst (editableElements st))"
  shows "(isDirty st eid \<longleftrightarrow>
            (\<exists>el original. map_of (editableElements st) eid = Some el \<and>
                            originalContent st eid = Some original \<and> innerHTML el \<noteq> original)) \<and>
         (originalContent st eid = None \<longrightarrow> \<not> isDirty st eid)"
proof -
  have m: "\<And>el. (map_of (editableElements st) eid = Some el) = ((eid, el) \<in> set (editableElements st))"
    using assms by simp
  have d: "\<And>el. differs st (eid, el) = (\<exists>original. originalContent st eid = Some original \<and> innerHTML el \<noteq> original)"
    by (simp add: differs_def split: option.splits)
  have "isDirty st eid \<longleftrightarrow>
            (\<exists>el original. map_of (editableElements st) eid = Some el \<and>
                            originalContent st eid = Some original \<and> innerHTML el \<noteq> original)"
    unfolding isDirty_iff[OF assms] m d by blast
  then show ?thesis by simp
qed

text \<open>
  In the concrete session \<open>A\<close> is dirty; without snapshots it is not.
\<close>

theorem dirty_iff_snapshot_differs_witness:
  "distinct (map fst (editableElements demoSession)) \<and> isDirty demoSession ''A'' \<and>
   \<not> isDirty (demoSession\<lparr>originalContent := Map.empty\<rparr>) ''A''"
proof -
  have d: "distinct (map fst (editableElements demoSession))"
    by (simp add: demoSession_def)
  have d': "distinct (map fst (editableElements (demoSession\<lparr>originalContent := Map.empty\<rparr>)))"
    by (simp add: demoSession_def)
  from dirty_iff_snapshot_differs[OF d, of "''A''"] dirty_iff_snapshot_differs[OF d', of "''A''"] d
  show ?thesis by (simp add: demoSession_def)
qed

subsection \<open>C3: what cancels a handshake\<close>

text \<open>
  Claim C3: a handshake resolves \<open>Cancelled\<close> when the popup is closed before a result
  arrives, and also once its deadline has elapsed (5 minutes for login, 10 minutes for
  media selection) with the popup still open. The first part holds
  (\<open>handshake_cancelled_by_close\<close>). The deadline, which the source comments as the time
  the user has to complete the login or to select media, is only handed to \<open>connect\<close>, and
  nothing in the source runs when it ends: after 600 polls of an open popup (300000 ms)
  and the end of the login timeout the promise of the login handshake is still pending,
  and so is that of the media handshake after 1200 polls (600000 ms).
\<close>

theorem deadline_leaves_handshake_pending:
  "promise (fst (runLogin (authConfig demoConfig)
                   (replicate 600 (PollTick False) @ [ConnectTimeout, PollTick False])
                   (openLoginPopup demoOrigin (authConfig demoConfig) True, demoStorage))) = Pending \<and>
   promise (runMedia (replicate 1200 (PollTick False) @ [ConnectTimeout, PollTick False])
                   (openMediaManager demoOrigin (authConfig demoConfig) True)) = Pending \<and>
   600 * POPUP_CHECK_INTERVAL = LOGIN_TIMEOUT \<and> 1200 * POPUP_CHECK_INTERVAL = MEDIA_TIMEOUT"
proof -
  have l: "set (replicate 600 (PollTick False) @ [ConnectTimeout, PollTick False])
             \<subseteq> {ConnectTimeout, PollTick False}"
    by auto
  have m: "set (replicate 1200 (PollTick False) @ [ConnectTimeout, PollTick False])
             \<subseteq> {ConnectTimeout, PollTick False}"
    by auto
  have o: "demoOrigin (cfg_appUrl (authConfig demoConfig)) = Some ''https://app.example''"
    by (simp add: demoOrigin_def authConfig_def demoConfig_def)
  show ?thesis
    unfolding runLogin_quiet[OF l] runMedia_quiet[OF m]
    by (simp add: openLoginPopup_def openMediaManager_def openPopup_def o
          POPUP_CHECK_INTERVAL_def LOGIN_TIMEOUT_def MEDIA_TIMEOUT_def)
qed

subsection \<open>C4: reading the credential store\<close>

text \<open>
  Claim C4 says that a read returns a stored credential only if its expiry is in the
  future and its application id is the active one, and that an expired or mismatched
  credential is purged by the read. Two readings fail: a credential of another
  application is answered with \<open>null\<close> but stays in storage, and a credential whose
  expiry equals the current time is still returned.
\<close>

theorem getStoredKey_mismatch_kept_counterexample:
  "getStoredKey \<lparr>cfg_appId = ''app'', cfg_appUrl = ''https://app.example''\<rparr> 1000
     \<lparr>scms_auth = Some (Json \<lparr>auth_key = ''k'', auth_appId = ''other'', expiresAt = 500\<rparr>),
      scms_mode = None, quotaExceeded = False\<rparr>
   = (None,
      \<lparr>scms_auth = Some (Json \<lparr>auth_key = ''k'', auth_appId = ''other'', expiresAt = 500\<rparr>),
       scms_mode = None, quotaExceeded = False\<rparr>) \<and>
   getStoredKey \<lparr>cfg_appId = ''app'', cfg_appUrl = ''https://app.example''\<rparr> 1000
     \<lparr>scms_auth = Some (Json \<lparr>auth_key = ''k'', auth_appId = ''app'', expiresAt = 1000\<rparr>),
      scms_mode = None, quotaExceeded = False\<rparr>
   = (Some ''k'',
      \<lparr>scms_auth = Some (Json \<lparr>auth_key = ''k'', auth_appId = ''app'', expiresAt = 1000\<rparr>),
       scms_mode = None, quotaExceeded = False\<rparr>)"
  by (simp add: getStoredKey_def)

text \<open>
  Claim C4 as the code has it: a stored credential is returned exactly when its
  application id is the active one and the current time is not past its expiry; for the
  active application an expired credential is answered with \<open>null\<close> and removed; a
  credential of another application is answered with \<open>null\<close> and left in storage.
\<close>

theorem getStoredKey_valid_or_absent:
  assumes "scms_auth ls = Some (Json a)"
  shows "getStoredKey cfg now ls =
           (if auth_appId a = cfg_appId cfg \<and> now \<le> expiresAt a then (Some (auth_key a), ls)
            else if auth_appId a = cfg_appId cfg then (None, ls\<lparr>scms_auth := None\<rparr>)
            else (None, ls))"
  using assms by (simp add: getStoredKey_def clearStoredKey_def)

text \<open>
  An expired credential of the active application is purged by the read.
\<close>

theorem getStoredKey_valid_or_absent_witness:
  "getStoredKey \<lparr>cfg_appId = ''app'', cfg_appUrl = ''https://app.example''\<rparr> 1000
     \<lparr>scms_auth = Some (Json \<lparr>auth_key = ''k'', auth_appId = ''app'', expiresAt = 500\<rparr>),
      scms_mode = None, quotaExceeded = False\<rparr>
   = (None, \<lparr>scms_auth = None, scms_mode = None, quotaExceeded = False\<rparr>)"
  using getStoredKey_valid_or_absent
     [of "\<lparr>scms_auth = Some (Json \<lparr>auth_key = ''k'', auth_appId = ''app'', expiresAt = 500\<rparr>),
      scms_mode = None, quotaExceeded = False\<rparr>"
      "\<lparr>auth_key = ''k'', auth_appId = ''app'', expiresAt = 500\<rparr>"
      "\<lparr>cfg_appId = ''app'', cfg_appUrl = ''https://app.example''\<rparr>" 1000]
  by simp

subsection \<open>C5: the session after sign-out\<close>

text \<open>
  Claim C5 says that after sign-out, from any session state, the session is
  \<open>{viewer, null, false}\<close>. \<open>signOut\<close> assigns neither \<open>currentMode\<close> nor \<open>saving\<close>:
  signing out of the concrete session, which is in author mode, leaves it in author mode
  (\<open>signOut_mode\<close> has this for every state), and signing out while its save is in
  flight leaves \<open>saving\<close> up, for the save's own \<open>finally\<close> to lower.
\<close>

theorem signOut_not_reset_counterexample:
  "currentMode demoSession = author \<and> currentMode (signOut demoSession) = author \<and>
   saving (signOut (fst (handleSave_begin demoConfig demoSession))) = True"
  by (simp add: handleSave_begin_def Let_def demo_dirty)
     (simp add: signOut_def Let_def demoSession_def demoElement_def forEachElement_def stopEditing_def
        modifyElement_def removeToolbar_def showSignInLink_def)

text \<open>
  Claim C5 as the code has it: after sign-out no element is being edited, \<open>saving\<close> is
  what it was (so it is false unless a save is in flight), and the key is gone from the
  controller and from storage. The state is one the code can reach (\<open>wellFormed\<close>).
  Nothing is said of the mode here: the click listeners stay installed and their guard
  reads \<open>currentMode\<close>, so that in the concrete session a click on \<open>B\<close> after sign-out
  starts an edit (\<open>signOut_then_click\<close>).
\<close>

theorem signOut_ends_edit_and_clears_key:
  assumes "wellFormed st"
  shows "editingElementId (signOut st) = None \<and> saving (signOut st) = saving st \<and>
         apiKey (signOut st) = None \<and> scms_auth (storage (signOut st)) = None"
  using signOut_editing[OF assms]
  by (simp add: signOut_storage signOut_apiKey clearStoredKey_def)

text \<open>
  Signing out of the concrete session, which is editing \<open>A\<close>.
\<close>

theorem signOut_ends_edit_and_clears_key_witness:
  "wellFormed demoSession \<and> editingElementId demoSession = Some ''A'' \<and>
   editingElementId (signOut demoSession) = None \<and> saving (signOut demoSession) = False \<and>
   apiKey (signOut demoSession) = None \<and> scms_auth (storage (signOut demoSession)) = None"
  using signOut_ends_edit_and_clears_key[OF demo_wellFormed] demo_wellFormed
  by (simp add: demoSession_def)

subsection \<open>C6: the saving flag\<close>

text \<open>
  Claim C6: a save that finds the dirty set empty or another save in flight returns
  without a request and without changing the state; otherwise \<open>saving\<close> is raised and
  one request goes out per dirty entry; whatever else the controller does while the flag
  is up leaves it up; and once the requests have settled the flag is down, whatever the
  answers were and whether or not the \<open>try\<close> block threw.
\<close>

theorem handleSave_saving_flag:
  "(getDirtyElements st = [] \<or> saving st \<longrightarrow> handleSave_begin cfg st = (st, None)) \<and>
   (getDirtyElements st \<noteq> [] \<and> \<not> saving st \<longrightarrow>
      saving (fst (handleSave_begin cfg st)) \<and>
      map_option (map fst) (snd (handleSave_begin cfg st)) = Some (getDirtyElements st)) \<and>
   (saving st \<longrightarrow> saving (fold (perform cfg) ops st)) \<and>
   \<not> saving (fst (handleSave_finish cfg now_read now_write settled st)) \<and>
   \<not> saving (fst (handleSave_settle cfg now_read now_write settled st)) \<and>
   (\<not> saving st \<longrightarrow> \<not> saving (fst (handleSave cfg now_read now_write fetch st)))"
proof -
  have a: "getDirtyElements st = [] \<or> saving st \<longrightarrow> handleSave_begin cfg st = (st, None)"
    by (simp add: handleSave_begin_def Let_def)
  have b: "getDirtyElements st \<noteq> [] \<and> \<not> saving st \<longrightarrow>
      saving (fst (handleSave_begin cfg st)) \<and>
      map_option (map fst) (snd (handleSave_begin cfg st)) = Some (getDirtyElements st)"
    by (simp add: handleSave_begin_def Let_def comp_def)
  have c: "saving st \<longrightarrow> saving (fold (perform cfg) ops st)"
    using saving_performs by blast
  have d: "\<not> saving (fst (handleSave_finish cfg now_read now_write settled st))"
    "\<not> saving (fst (handleSave_settle cfg now_read now_write settled st))"
    by (rule saving_finish, rule saving_settle)
  have e: "\<not> saving st \<longrightarrow> \<not> saving (fst (handleSave cfg now_read now_write fetch st))"
    by (simp add: handleSave_def handleSave_begin_def Let_def saving_settle)
  from a b c d e show ?thesis by blast
qed

text \<open>
  In the concrete session: the save raises the flag, a second save is a no-op, an edit,
  another press of save and a sign-out during the save leave the flag up, and the flag is
  down after both requests failed.
\<close>

theorem handleSave_saving_flag_witness:
  "saving (fst (handleSave_begin demoConfig demoSession)) \<and>
   handleSave_begin demoConfig (fst (handleSave_begin demoConfig demoSession))
     = (fst (handleSave_begin demoConfig demoSession), None) \<and>
   saving (fold (perform demoConfig) [InputEvent ''A'' ''newer-A'', HandleSave, SignOut]
             (fst (handleSave_begin demoConfig demoSession))) \<and>
   \<not> saving (fst (handleSave_settle demoConfig 1000 1001
                    [((''A'', ''new-A''), NetworkError ''Failed to fetch''),
                     ((''B'', ''new-B''), NetworkError ''Failed to fetch'')]
                    (fst (handleSave_begin demoConfig demoSession))))"
proof -
  have g: "getDirtyElements demoSession \<noteq> [] \<and> \<not> saving demoSession"
    by (simp add: demo_dirty) (simp add: demoSession_def)
  from handleSave_saving_flag[of demoSession demoConfig "[]" 1000 1001 "[]" "\<lambda>r. NetworkError []"] g
  have s: "saving (fst (handleSave_begin demoConfig demoSession))" by blast
  from handleSave_saving_flag[of "fst (handleSave_begin demoConfig demoSession)" demoConfig
         "[InputEvent ''A'' ''newer-A'', HandleSave, SignOut]" 1000 1001
         "[((''A'', ''new-A''), NetworkError ''Failed to fetch''),
           ((''B'', ''new-B''), NetworkError ''Failed to fetch'')]" "\<lambda>r. NetworkError []"] s
  show ?thesis by blast
qed

subsection \<open>C7: leaving edit mode after a save\<close>




subsection \<open>C8: the snapshot is taken once\<close>

text \<open>
  Claim C8: \<open>startEditing\<close> stores the element's content as the snapshot only when the
  id has none; with a snapshot present it leaves all snapshots as they are, so a second
  \<open>startEditing\<close> changes none; for an id that is not registered nothing changes.
\<close>

theorem startEditing_snapshot_once:
  "(originalContent st eid = Some s \<longrightarrow> originalContent (startEditing eid st) = originalContent st) \<and>
   (originalContent st eid = None \<and> map_of (editableElements st) eid = Some el \<longrightarrow>
      originalContent (startEditing eid st) = (originalContent st)(eid \<mapsto> innerHTML el)) \<and>
   (map_of (editableElements st) eid = None \<longrightarrow> startEditing eid st = st) \<and>
   originalContent (startEditing eid (startEditing eid st)) = originalContent (startEditing eid st)"
proof -
  have a: "originalContent st eid = Some s \<longrightarrow> originalContent (startEditing eid st) = originalContent st"
    by (simp add: startEditing_originalContent split: option.splits)
  have b: "originalContent st eid = None \<and> map_of (editableElements st) eid = Some el \<longrightarrow>
      originalContent (startEditing eid st) = (originalContent st)(eid \<mapsto> innerHTML el)"
    by (simp add: startEditing_originalContent)
  have c: "map_of (editableElements st) eid = None \<longrightarrow> startEditing eid st = st"
    by (simp add: startEditing_def)
  have d: "originalContent (startEditing eid (startEditing eid st)) = originalContent (startEditing eid st)"
  proof (cases "map_of (editableElements st) eid")
    case None
    then show ?thesis by (simp add: startEditing_def)
  next
    case (Some el0)
    then obtain s0 where "originalContent (startEditing eid st) eid = Some s0"
      by (cases "originalContent st eid") (simp_all add: startEditing_originalContent)
    then show ?thesis
      by (simp add: startEditing_originalContent[of eid "startEditing eid st"] split: option.splits)
  qed
  from a b c d show ?thesis by blast
qed

text \<open>
  Entering \<open>A\<close>, which has a snapshot, keeps it; entering \<open>B\<close> without one captures
  its content.
\<close>

theorem startEditing_snapshot_once_witness:
  "originalContent (startEditing ''A'' demoSession) = originalContent demoSession \<and>
   originalContent (startEditing ''B'' (demoSession\<lparr>originalContent := [''A'' \<mapsto> ''old-A'']\<rparr>))
     = [''A'' \<mapsto> ''old-A'', ''B'' \<mapsto> ''new-B'']"
  using startEditing_snapshot_once[of demoSession "''A''" "''old-A''" "demoElement ''new-A''"]
    startEditing_snapshot_once[of "demoSession\<lparr>originalContent := [''A'' \<mapsto> ''old-A'']\<rparr>" "''B''"
       "''old-B''" "demoElement ''new-B''"]
  by (simp add: demoSession_def demoElement_def)

subsection \<open>C9: calls from another origin\<close>

text \<open>
  Claim C9: a call whose sender's origin is not the origin of the configured app URL is
  never handed to a method of the handshake and has no effect on it: a run with such
  calls ends in the same state as the run without them, and every call in the log of
  delivered calls comes from the app's origin.
\<close>

theorem foreign_origin_never_delivered:
  assumes "originOf (cfg_appUrl cfg) = Some origin"
  shows "runLogin cfg (filter (\<lambda>e. \<not> foreignCall origin e) evs) (openLoginPopup originOf cfg opened, ls)
           = runLogin cfg evs (openLoginPopup originOf cfg opened, ls) \<and>
         runMedia (filter (\<lambda>e. \<not> foreignCall origin e) evs) (openMediaManager originOf cfg opened)
           = runMedia evs (openMediaManager originOf cfg opened) \<and>
         fst ` set (received (fst (runLogin cfg evs (openLoginPopup originOf cfg opened, ls)))) \<subseteq> {origin} \<and>
         fst ` set (received (runMedia evs (openMediaManager originOf cfg opened))) \<subseteq> {origin}"
proof -
  have l: "set (allowedOrigins (fst (openLoginPopup originOf cfg opened, ls))) \<subseteq> {origin}"
          "fst ` set (received (fst (openLoginPopup originOf cfg opened, ls))) \<subseteq> {origin}"
    using assms by (simp_all add: openLoginPopup_def openPopup_def)
  have m: "set (allowedOrigins (openMediaManager originOf cfg opened)) \<subseteq> {origin}"
          "fst ` set (received (openMediaManager originOf cfg opened)) \<subseteq> {origin}"
    using assms by (simp_all add: openMediaManager_def openPopup_def)
  show ?thesis
    using runLogin_filter_foreign[OF l(1)] runMedia_filter_foreign[OF m(1)]
      runLogin_received[OF l] runMedia_received[OF m]
    by blast
qed

text \<open>
  A forged \<open>receiveAuthResult\<close> from another origin changes nothing.
\<close>

theorem foreign_origin_never_delivered_witness:
  "demoOrigin (cfg_appUrl (authConfig demoConfig)) = Some ''https://app.example'' \<and>
   runLogin (authConfig demoConfig)
     [RemoteCall 1000 ''https://evil.example'' (ReceiveAuthResult ''stolen''), PollTick False]
     (openLoginPopup demoOrigin (authConfig demoConfig) True, demoStorage)
   = runLogin (authConfig demoConfig) [PollTick False]
       (openLoginPopup demoOrigin (authConfig demoConfig) True, demoStorage)"
proof -
  have o: "demoOrigin (cfg_appUrl (authConfig demoConfig)) = Some ''https://app.example''"
    by (simp add: demoOrigin_def authConfig_def demoConfig_def)
  from foreign_origin_never_delivered[of demoOrigin "authConfig demoConfig" "''https://app.example''"
         "[RemoteCall 1000 ''https://evil.example'' (ReceiveAuthResult ''stolen''), PollTick False]"
         True demoStorage] o
  show ?thesis by (simp add: foreignCall_def)
qed

subsection \<open>C10: the lifetime of a stored credential\<close>

text \<open>
  Claim C10: every write of the credential sets its expiry to the time of the write plus
  3600000 ms: \<open>storeKey\<close> itself, the refresh (which writes only when the read returned
  a key), the store in \<open>receiveAuthResult\<close>, and the refresh at the end of a save.
\<close>

theorem credential_expiry_sixty_minutes:
  "(storeKey cfg now k ls = Inr ls' \<longrightarrow>
      scms_auth ls' = Some (Json \<lparr>auth_key = k, auth_appId = cfg_appId cfg, expiresAt = now + 3600000\<rparr>)) \<and>
   (\<not> quotaExceeded ls \<longrightarrow> (\<exists>ls1. storeKey cfg now k ls = Inr ls1)) \<and>
   (refreshKeyExpiry cfg now_read now ls = Inr ls' \<longrightarrow>
      ls' = snd (getStoredKey cfg now_read ls) \<or>
      (\<exists>k'. fst (getStoredKey cfg now_read ls) = Some k' \<and> k' \<noteq> [] \<and>
            scms_auth ls' = Some (Json \<lparr>auth_key = k', auth_appId = cfg_appId cfg, expiresAt = now + 3600000\<rparr>))) \<and>
   (fst (getStoredKey cfg now_read ls) = Some k \<and> k \<noteq> [] \<and> \<not> quotaExceeded ls \<longrightarrow>
      (\<exists>ls1. refreshKeyExpiry cfg now_read now ls = Inr ls1 \<and>
             scms_auth ls1 = Some (Json \<lparr>auth_key = k, auth_appId = cfg_appId cfg, expiresAt = now + 3600000\<rparr>))) \<and>
   (delivers h origin \<and> \<not> quotaExceeded ls \<longrightarrow>
      scms_auth (snd (loginStep cfg (RemoteCall now origin (ReceiveAuthResult k)) (h, ls)))
        = Some (Json \<lparr>auth_key = k, auth_appId = cfg_appId cfg, expiresAt = now + 3600000\<rparr>)) \<and>
   (fst (getStoredKey (authConfig vcfg) now_read (storage st)) = Some k \<and> k \<noteq> [] \<and>
    \<not> quotaExceeded (storage st) \<longrightarrow>
      scms_auth (storage (fst (handleSave_settle vcfg now_read now settled st)))
        = Some (Json \<lparr>auth_key = k, auth_appId = appId vcfg, expiresAt = now + 3600000\<rparr>))"
proof -
  have a: "storeKey cfg now k ls = Inr ls' \<longrightarrow>
      scms_auth ls' = Some (Json \<lparr>auth_key = k, auth_appId = cfg_appId cfg, expiresAt = now + 3600000\<rparr>)"
    using storeKey_expiry by blast
  have b: "\<not> quotaExceeded ls \<longrightarrow> (\<exists>ls1. storeKey cfg now k ls = Inr ls1)"
    by (simp add: storeKey_def)
  have c: "refreshKeyExpiry cfg now_read now ls = Inr ls' \<longrightarrow>
      ls' = snd (getStoredKey cfg now_read ls) \<or>
      (\<exists>k'. fst (getStoredKey cfg now_read ls) = Some k' \<and> k' \<noteq> [] \<and>
            scms_auth ls' = Some (Json \<lparr>auth_key = k', auth_appId = cfg_appId cfg, expiresAt = now + 3600000\<rparr>))"
    using refreshKeyExpiry_cases by blast
  have d: "fst (getStoredKey cfg now_read ls) = Some k \<and> k \<noteq> [] \<and> \<not> quotaExceeded ls \<longrightarrow>
      (\<exists>ls1. refreshKeyExpiry cfg now_read now ls = Inr ls1 \<and>
             scms_auth ls1 = Some (Json \<lparr>auth_key = k, auth_appId = cfg_appId cfg, expiresAt = now + 3600000\<rparr>))"
    using refreshKeyExpiry_writes by blast
  have e: "delivers h origin \<and> \<not> quotaExceeded ls \<longrightarrow>
      scms_auth (snd (loginStep cfg (RemoteCall now origin (ReceiveAuthResult k)) (h, ls)))
        = Some (Json \<lparr>auth_key = k, auth_appId = cfg_appId cfg, expiresAt = now + 3600000\<rparr>)"
    using loginStep_store by blast
  have f: "fst (getStoredKey (authConfig vcfg) now_read (storage st)) = Some k \<and> k \<noteq> [] \<and>
    \<not> quotaExceeded (storage st) \<longrightarrow>
      scms_auth (storage (fst (handleSave_settle vcfg now_read now settled st)))
        = Some (Json \<lparr>auth_key = k, auth_appId = appId vcfg, expiresAt = now + 3600000\<rparr>)"
  proof
    assume h: "fst (getStoredKey (authConfig vcfg) now_read (storage st)) = Some k \<and> k \<noteq> [] \<and>
      \<not> quotaExceeded (storage st)"
    from refreshKeyExpiry_writes[of "authConfig vcfg" now_read "storage st" k now] h
    obtain ls1 where "refreshKeyExpiry (authConfig vcfg) now_read now (storage st) = Inr ls1"
      "scms_auth ls1 = Some (Json \<lparr>auth_key = k, auth_appId = cfg_appId (authConfig vcfg), expiresAt = now + 3600000\<rparr>)"
      by blast
    then show "scms_auth (storage (fst (handleSave_settle vcfg now_read now settled st)))
        = Some (Json \<lparr>auth_key = k, auth_appId = appId vcfg, expiresAt = now + 3600000\<rparr>)"
      by (simp add: settle_storage authConfig_def)
  qed
  from a b c d e f show ?thesis by blast
qed

text \<open>
  A save of the concrete session that settles, with the write at time 1001, leaves the
  expiry at 3601001.
\<close>

theorem credential_expiry_sixty_minutes_witness:
  "scms_auth (storage (fst (handleSave_settle demoConfig 1000 1001
      [((''A'', ''new-A''), Response 200 ''OK'' None)] demoSession)))
     = Some (Json \<lparr>auth_key = ''k1'', auth_appId = ''app'', expiresAt = 3601001\<rparr>)"
proof -
  have g: "fst (getStoredKey (authConfig demoConfig) 1000 (storage demoSession)) = Some ''k1'' \<and>
           ''k1'' \<noteq> [] \<and> \<not> quotaExceeded (storage demoSession)"
    by (simp add: getStoredKey_def authConfig_def demoConfig_def demoSession_def demoStorage_def)
  have n: "appId demoConfig = ''app''" by (simp add: demoConfig_def)
  from credential_expiry_sixty_minutes
        [of "authConfig demoConfig" 1001 "''k1''" "storage demoSession" "storage demoSession" 1000
            "openLoginPopup demoOrigin (authConfig demoConfig) True" "''https://app.example''"
            demoConfig demoSession "[((''A'', ''new-A''), Response 200 ''OK'' None)]"]
       g n
  show ?thesis by simp
qed

end
